theory Spec2Isabelle
  imports Main "HOL-Library.Word" "HOL-Library.AList"
begin

section \<open>Data model\<close>

text \<open>
  The bytes codec engine of podite: \<^verbatim>\<open>pod/bytes.py\<close> (the converter catalog, the format
  negotiation, the tag-type slot and the dataclass codec) and \<^verbatim>\<open>pod/types/array.py\<close>
  (the generated container classes). Python exceptions are values of type \<open>error\<close>;
  the \<^verbatim>\<open>BytesIO\<close> buffer and the class variable \<^verbatim>\<open>AutoTagType.TAG_TYPE[0]\<close> are passed
  explicitly. The calls of \<^verbatim>\<open>print\<close> in bytes.py only write to standard output and are
  left out.
\<close>

type_synonym byte = "8 word"

text \<open>
  Modelled from the spec: the atomic integer types of \<^verbatim>\<open>pod/types/atomic.py\<close>, which is
  not part of the sources at hand. The spec gives unsigned integers of 8, 32 and 64 bits
  in little-endian order and requires that each implements the converter contract.
\<close>

datatype atomic = U8 | U32 | U64

datatype encoding = UTF_8 | ASCII

text \<open>
  A type handed to the catalog. The container constructors carry the parameters that the
  generator functions of array.py close over: \<open>FixedLenArray etype length\<close>,
  \<open>FixedLenBytes length\<close>, \<open>FixedLenStr length encoding autopad\<close>,
  \<open>Vec etype max_length length_type\<close>, \<open>Bytes max_length length_type\<close>,
  \<open>Str max_length length_type encoding\<close>. A dataclass is its name and its fields in
  declaration order. \<open>Unregistered\<close> stands for any type that no registered resolver
  accepts. Lengths are natural numbers.
\<close>

datatype ty =
    Atomic atomic
  | AutoTagType
  | FixedLenArray ty nat
  | FixedLenBytes nat
  | FixedLenStr nat encoding bool
  | Vec ty nat ty
  | Bytes nat ty
  | Str nat ty encoding
  | Dataclass string "(string \<times> ty) list"
  | Unregistered string

text \<open>Python values: a \<^verbatim>\<open>str\<close> is its list of code points, an object its class name and
  attributes.\<close>

datatype pyval =
    PNone
  | PInt int
  | PBytes "byte list"
  | PStr "nat list"
  | PList "pyval list"
  | PObj string "(string \<times> pyval) list"

text \<open>The format constants of \<^verbatim>\<open>pod/_utils.py\<close>; \<open>FORMAT_OTHER\<close> is any other value
  passed as \<^verbatim>\<open>format\<close>.\<close>

datatype fmt = FORMAT_BORSCH | FORMAT_PASS | FORMAT_AUTO | FORMAT_ZERO_COPY | FORMAT_OTHER string

text \<open>
  Exceptions. \<open>PodPathError msg path type value cause\<close> is
  \<^verbatim>\<open>PodPathError(msg, path, field.type.__name__, value) from cause\<close>, with the field's
  declared type standing for its name.
\<close>

datatype error =
    NoConverter string
  | AttributeError string
  | TypeError string
  | ValueError string
  | RuntimeError string
  | UnicodeError
  | AtomicError
  | PodPathError string "string list" ty "pyval option" error

section \<open>The catalog: resolving a converter\<close>

datatype converter = AtomicConverter | SelfBytesPodConverter

text \<open>
  Modelled from the spec: \<^verbatim>\<open>PodConverterCatalog._get_converter_or_raise\<close> of
  \<^verbatim>\<open>pod/core.py\<close> and the decorator \<^verbatim>\<open>pod\<close> of \<^verbatim>\<open>pod/decorators.py\<close>, neither part of
  the sources at hand. The catalog returns the first registered converter that accepts
  the type and fails with an error naming the type otherwise. Every generated container
  class, every dataclass and \<open>AutoTagType\<close> (bytes.py:144) advertise \<^verbatim>\<open>"bytes"\<close>, so
  \<^verbatim>\<open>SelfBytesPodConverter.get_mapping\<close> (bytes.py:79, registered at bytes.py:273) accepts
  them; the atomic types have a converter of their own.
\<close>

fun get_converter_or_raise :: "ty \<Rightarrow> string \<Rightarrow> error + converter" where
  "get_converter_or_raise (Atomic a) error_msg = Inr AtomicConverter"
| "get_converter_or_raise (Unregistered n) error_msg = Inl (NoConverter error_msg)"
| "get_converter_or_raise t error_msg = Inr SelfBytesPodConverter"

text \<open>The hook names of bytes.py:27-30.\<close>

definition IS_STATIC :: string where "IS_STATIC = ''_is_static''"
definition CALC_MAX_SIZE :: string where "CALC_MAX_SIZE = ''_calc_max_size''"
definition TO_BYTES_PARTIAL :: string where "TO_BYTES_PARTIAL = ''_to_bytes_partial''"
definition FROM_BYTES_PARTIAL :: string where "FROM_BYTES_PARTIAL = ''_from_bytes_partial''"

text \<open>Modelled from the spec: the width in bytes of an atomic type.\<close>

fun atomic_size :: "atomic \<Rightarrow> nat" where
  "atomic_size U8 = 1"
| "atomic_size U32 = 4"
| "atomic_size U64 = 8"

section \<open>Static check\<close>

text \<open>The loop of \<^verbatim>\<open>dataclass_is_static\<close> (bytes.py:33) over the answers for the fields:
  the first \<^verbatim>\<open>False\<close> returns, an exception propagates.\<close>

fun all_fields_static :: "(error + bool) list \<Rightarrow> error + bool" where
  "all_fields_static [] = Inr True"
| "all_fields_static (Inl e # rs) = Inl e"
| "all_fields_static (Inr False # rs) = Inr False"
| "all_fields_static (Inr True # rs) = all_fields_static rs"

text \<open>
  \<open>is_static\<close> is \<^verbatim>\<open>BytesPodConverterCatalog.is_static\<close> (bytes.py:148): resolve the
  converter, then ask it. \<open>getattr_bool t name\<close> is \<^verbatim>\<open>getattr(type_, name)()\<close>, the call
  that \<^verbatim>\<open>SelfBytesPodConverter.is_static\<close> (bytes.py:85) makes with \<open>name = IS_STATIC\<close>:
  each class answers under the name its body defines the method with, and any other
  name is an \<^verbatim>\<open>AttributeError\<close>. The class of \<^verbatim>\<open>_var_len_array\<close> defines \<^verbatim>\<open>is_static\<close>
  (array.py:158-160); all the others define \<^verbatim>\<open>_is_static\<close> (array.py:13, 62, 103, 226,
  275; bytes.py:114; bytes.py:265 for a dataclass). The converter of the atomic types
  answers \<^verbatim>\<open>True\<close>, their encodings having a fixed width.
\<close>

function is_static :: "ty \<Rightarrow> error + bool"
  and getattr_bool :: "ty \<Rightarrow> string \<Rightarrow> error + bool"
where
  "is_static t =
     (case get_converter_or_raise t ''No converter was able to answer if this obj is static'' of
        Inl e \<Rightarrow> Inl e
      | Inr AtomicConverter \<Rightarrow> Inr True
      | Inr SelfBytesPodConverter \<Rightarrow> getattr_bool t IS_STATIC)"
| "getattr_bool (Atomic a) name = Inl (AttributeError name)"
| "getattr_bool (Unregistered n) name = Inl (AttributeError name)"
| "getattr_bool AutoTagType name =
     (if name = ''_is_static'' then Inr False else Inl (AttributeError name))"
| "getattr_bool (FixedLenArray etype len) name =
     (if name = ''_is_static'' then is_static etype else Inl (AttributeError name))"
| "getattr_bool (FixedLenBytes len) name =
     (if name = ''_is_static'' then Inr True else Inl (AttributeError name))"
| "getattr_bool (FixedLenStr len enc autopad) name =
     (if name = ''_is_static'' then Inr True else Inl (AttributeError name))"
| "getattr_bool (Vec etype max_length length_type) name =
     (if name = ''is_static'' then Inr False else Inl (AttributeError name))"
| "getattr_bool (Bytes max_length length_type) name =
     (if name = ''_is_static'' then Inr False else Inl (AttributeError name))"
| "getattr_bool (Str max_length length_type enc) name =
     (if name = ''_is_static'' then Inr False else Inl (AttributeError name))"
| "getattr_bool (Dataclass cls flds) name =
     (if name = ''_is_static'' then all_fields_static (map (\<lambda>f. is_static (snd f)) flds)
      else Inl (AttributeError name))"
  by pat_completeness auto
termination
  by lexicographic_order

section \<open>Maximum size\<close>

text \<open>The loop of \<^verbatim>\<open>dataclass_calc_max_size\<close> (bytes.py:40) over the answers for the
  fields, \<open>acc\<close> being \<^verbatim>\<open>total\<close>, the sum so far.\<close>

fun sum_field_sizes :: "nat \<Rightarrow> (error + nat) list \<Rightarrow> error + nat" where
  "sum_field_sizes acc [] = Inr acc"
| "sum_field_sizes acc (Inl e # rs) = Inl e"
| "sum_field_sizes acc (Inr n # rs) = sum_field_sizes (acc + n) rs"

text \<open>Nesting depth of a type; the type in the tag slot is atomic and ranks lowest.\<close>

fun rank :: "ty \<Rightarrow> nat" where
  "rank (Atomic a) = 0"
| "rank t = Suc (size t)"

text \<open>
  \<open>calc_max_size tag t\<close> is \<^verbatim>\<open>BytesPodConverterCatalog.calc_max_size\<close> (bytes.py:156)
  followed by the \<^verbatim>\<open>_calc_max_size\<close> of the class, which every class defines under this
  name; \<open>tag\<close> is the value of \<^verbatim>\<open>AutoTagType.TAG_TYPE[0]\<close>, read by
  \<^verbatim>\<open>AutoTagType._calc_max_size\<close> (bytes.py:119). The slot holds \<^verbatim>\<open>None\<close> or an atomic
  type: bytes.py stores nothing else in it. The converter of an atomic type answers with
  its width.
\<close>

function calc_max_size :: "atomic option \<Rightarrow> ty \<Rightarrow> error + nat" where
  "calc_max_size tag (Atomic a) = Inr (atomic_size a)"
| "calc_max_size tag (Unregistered n) =
     Inl (NoConverter ''No converter was able to calculate maximum size of type'')"
| "calc_max_size tag AutoTagType =
     (case tag of
        None \<Rightarrow> Inl (NoConverter ''No converter was able to calculate maximum size of type'')
      | Some a \<Rightarrow> calc_max_size tag (Atomic a))"
| "calc_max_size tag (FixedLenArray etype len) =
     (case calc_max_size tag etype of Inl e \<Rightarrow> Inl e | Inr n \<Rightarrow> Inr (n * len))"
| "calc_max_size tag (FixedLenBytes len) = Inr len"
| "calc_max_size tag (FixedLenStr len enc autopad) = Inr len"
| "calc_max_size tag (Vec etype max_length length_type) =
     (case calc_max_size tag length_type of
        Inl e \<Rightarrow> Inl e
      | Inr len_size \<Rightarrow>
          (case calc_max_size tag etype of
             Inl e \<Rightarrow> Inl e
           | Inr n \<Rightarrow> Inr (len_size + n * max_length)))"
| "calc_max_size tag (Bytes max_length length_type) =
     (case calc_max_size tag length_type of
        Inl e \<Rightarrow> Inl e
      | Inr len_size \<Rightarrow> Inr (len_size + max_length))"
| "calc_max_size tag (Str max_length length_type enc) =
     (case calc_max_size tag length_type of
        Inl e \<Rightarrow> Inl e
      | Inr len_size \<Rightarrow> Inr (len_size + max_length))"
| "calc_max_size tag (Dataclass cls flds) =
     sum_field_sizes 0 (map (\<lambda>f. calc_max_size tag (snd f)) flds)"
  by pat_completeness auto
termination
proof -
  have est: "size (snd g) \<le> size_list (size_prod (\<lambda>_. 0) size) gs"
    if "g \<in> set gs" for g :: "string \<times> ty" and gs
    by (rule size_list_estimation' [OF that]) (cases g, simp)
  have rk: "rank t \<le> Suc (size t)" for t
    by (cases t) simp_all
  have rk0: "rank t < Suc (Suc (size t))" for t
    using rk [of t] by simp
  have rk1: "rank t < Suc (Suc (k + size t))" for t k
    using rk [of t] by simp
  have rk2: "rank t < Suc (Suc (size t + k))" for t k
    using rk [of t] by simp
  have fld: "rank b < Suc (Suc (size_list (size_prod (\<lambda>_. 0) size) gs))"
    if "(a, b) \<in> set gs" for a :: string and b and gs
    using est [OF that] rk [of b] by simp
  show ?thesis
    by (relation "measure (\<lambda>(tag, t). rank t)") (auto simp: rk0 rk1 rk2 fld)
qed

section \<open>The container generators\<close>

text \<open>
  The defaults of \<^verbatim>\<open>_var_len_array\<close> (array.py:147-154), \<^verbatim>\<open>_var_len_bytes\<close>
  (array.py:217-222) and \<^verbatim>\<open>_var_len_str\<close> (array.py:266-271): a missing \<^verbatim>\<open>length_type\<close>
  is \<^verbatim>\<open>U32\<close>, a missing \<^verbatim>\<open>max_length\<close> is \<^verbatim>\<open>2 ** BYTES_CATALOG.calc_max_size(length_type)\<close>.
  The result is the generated class.
\<close>

definition default_length_type :: "ty option \<Rightarrow> ty" where
  "default_length_type length_type = (case length_type of None \<Rightarrow> Atomic U32 | Some lt \<Rightarrow> lt)"

definition default_max_length :: "atomic option \<Rightarrow> nat option \<Rightarrow> ty \<Rightarrow> error + nat" where
  "default_max_length tag max_length length_type =
     (case max_length of
        Some m \<Rightarrow> Inr m
      | None \<Rightarrow> (case calc_max_size tag length_type of Inl e \<Rightarrow> Inl e | Inr n \<Rightarrow> Inr (2 ^ n)))"

definition var_len_array :: "atomic option \<Rightarrow> ty \<Rightarrow> nat option \<Rightarrow> ty option \<Rightarrow> error + ty" where
  "var_len_array tag etype max_length length_type =
     (let lt = default_length_type length_type in
      case default_max_length tag max_length lt of
        Inl e \<Rightarrow> Inl e
      | Inr m \<Rightarrow> Inr (Vec etype m lt))"

definition var_len_bytes :: "atomic option \<Rightarrow> nat option \<Rightarrow> ty option \<Rightarrow> error + ty" where
  "var_len_bytes tag max_length length_type =
     (let lt = default_length_type length_type in
      case default_max_length tag max_length lt of
        Inl e \<Rightarrow> Inl e
      | Inr m \<Rightarrow> Inr (Bytes m lt))"

definition var_len_str :: "atomic option \<Rightarrow> nat option \<Rightarrow> ty option \<Rightarrow> encoding \<Rightarrow> error + ty" where
  "var_len_str tag max_length length_type enc =
     (let lt = default_length_type length_type in
      case default_max_length tag max_length lt of
        Inl e \<Rightarrow> Inl e
      | Inr m \<Rightarrow> Inr (Str m lt enc))"

section \<open>Buffer and tag slot\<close>

text \<open>
  The state a pack or unpack step works on: the \<^verbatim>\<open>BytesIO\<close> buffer (its bytes and its
  cursor) and \<^verbatim>\<open>AutoTagType.TAG_TYPE[0]\<close> (bytes.py:112), \<^verbatim>\<open>None\<close> at start.
\<close>

record state =
  data :: "byte list"
  pos :: nat
  TAG_TYPE :: "atomic option"

text \<open>\<^verbatim>\<open>buffer.write(bs)\<close>: overwrite from the cursor on, growing the buffer (zero-filled up
  to the cursor if it stands beyond the end), and advance the cursor. Writing nothing
  changes nothing.\<close>

definition buffer_write :: "byte list \<Rightarrow> state \<Rightarrow> state" where
  "buffer_write bs s =
     (if bs = [] then s
      else s\<lparr>data := take (pos s) (data s) @ replicate (pos s - length (data s)) 0 @ bs
                      @ drop (pos s + length bs) (data s),
             pos := pos s + length bs\<rparr>)"

text \<open>\<^verbatim>\<open>buffer.read(n)\<close>: the next \<open>n\<close> bytes, or all that remain if fewer do; a negative
  \<open>n\<close> reads to the end.\<close>

definition buffer_read :: "int \<Rightarrow> state \<Rightarrow> byte list \<times> state" where
  "buffer_read n s =
     (let rest = drop (pos s) (data s);
          bs = (if n < 0 then rest else take (nat n) rest)
      in (bs, s\<lparr>pos := pos s + length bs\<rparr>))"

section \<open>Atomic integers\<close>

fun le_bytes :: "nat \<Rightarrow> nat \<Rightarrow> byte list" where
  "le_bytes 0 n = []"
| "le_bytes (Suc w) n = of_nat (n mod 256) # le_bytes w (n div 256)"

fun le_value :: "byte list \<Rightarrow> nat" where
  "le_value [] = 0"
| "le_value (b # bs) = unat b + 256 * le_value bs"

text \<open>
  Modelled from the spec: the converter of the atomic types (\<^verbatim>\<open>pod/types/atomic.py\<close> is
  not part of the sources at hand). Packing writes the little-endian bytes of an integer
  in range and fails on anything else; unpacking reads the width and fails on a buffer
  that ends early. Neither depends on the format.
\<close>

definition atomic_pack_partial :: "atomic \<Rightarrow> pyval \<Rightarrow> state \<Rightarrow> (error + unit) \<times> state" where
  "atomic_pack_partial a obj s =
     (case obj of
        PInt n \<Rightarrow>
          if 0 \<le> n \<and> n < 2 ^ (8 * atomic_size a)
          then (Inr (), buffer_write (le_bytes (atomic_size a) (nat n)) s)
          else (Inl AtomicError, s)
      | _ \<Rightarrow> (Inl AtomicError, s))"

definition atomic_unpack_partial :: "atomic \<Rightarrow> state \<Rightarrow> (error + pyval) \<times> state" where
  "atomic_unpack_partial a s =
     (let (bs, s') = buffer_read (int (atomic_size a)) s
      in if length bs < atomic_size a then (Inl AtomicError, s')
         else (Inr (PInt (int (le_value bs))), s'))"

section \<open>Packing through the catalog\<close>

text \<open>\<^verbatim>\<open>getattr(obj, name)\<close> on a value.\<close>

fun getattr_obj :: "pyval \<Rightarrow> string \<Rightarrow> error + pyval" where
  "getattr_obj (PObj cls attrs) name =
     (case map_of attrs name of None \<Rightarrow> Inl (AttributeError name) | Some v \<Rightarrow> Inr v)"
| "getattr_obj v name = Inl (AttributeError name)"

text \<open>
  The two \<^verbatim>\<open>except\<close> clauses of \<^verbatim>\<open>dataclass_to_bytes_partial\<close> (bytes.py:54-59) and of
  \<^verbatim>\<open>dataclass_from_bytes_partial\<close> (bytes.py:69-74): a \<^verbatim>\<open>PodPathError\<close> gets the field
  name and the class name appended to its path and is raised again; any other exception
  is wrapped into a new \<^verbatim>\<open>PodPathError\<close> with the path \<^verbatim>\<open>[field.name, cls.__name__]\<close>.
\<close>

fun enrich :: "string \<Rightarrow> string \<Rightarrow> string \<Rightarrow> ty \<Rightarrow> pyval option \<Rightarrow> error \<Rightarrow> error" where
  "enrich msg name cls ftype v (PodPathError m path t w c) =
     PodPathError m (path @ [name, cls]) t w c"
| "enrich msg name cls ftype v e = PodPathError msg [name, cls] ftype v e"

definition format_error :: error where
  "format_error = ValueError ''Format argument must be FORMAT_AUTO, FORMAT_BORSCH, or FORMAT_ZERO_COPY''"

definition kwargs_error :: "string \<Rightarrow> error" where
  "kwargs_error hook = TypeError (hook @ ''() got an unexpected keyword argument format'')"

text \<open>
  \<open>pack_partial\<close> is \<^verbatim>\<open>BytesPodConverterCatalog.pack_partial\<close> (bytes.py:170): resolve the
  converter, choose the tag type from the format, and run the converter's step inside
  \<^verbatim>\<open>AutoTagTypeValueManager\<close> (bytes.py:98-107), whose \<^verbatim>\<open>__enter__\<close> saves the slot and
  stores the tag type and whose \<^verbatim>\<open>__exit__\<close> stores the saved value back, also when the
  step raises.

  \<open>converter_pack_partial\<close> is \<^verbatim>\<open>converter.pack_partial(type_, buffer, obj, format=format)\<close>.
  For a self-describing type this is \<^verbatim>\<open>SelfBytesPodConverter.pack_partial\<close> (bytes.py:91),
  the call \<^verbatim>\<open>getattr(type_, TO_BYTES_PARTIAL)(buffer, obj, format=format)\<close>.
  \<^verbatim>\<open>dataclass_to_bytes_partial(cls, buffer, obj, **kwargs)\<close> (bytes.py:48) and
  \<^verbatim>\<open>AutoTagType._to_bytes_partial(cls, buffer, obj, **kwargs)\<close> (bytes.py:126) take the
  keyword and pass it on. The container classes declare
  \<^verbatim>\<open>_to_bytes_partial(cls, obj, buffer)\<close> (array.py:35, 75, 124, 187, 245, 294) with no
  keyword parameters, so Python rejects the call with a \<^verbatim>\<open>TypeError\<close> before the body
  runs.

  \<open>dataclass_to_bytes_partial cls flds\<close> is the loop of bytes.py:49 over the fields
  \<open>flds\<close> still to pack.
\<close>

function pack_partial :: "ty \<Rightarrow> pyval \<Rightarrow> fmt \<Rightarrow> state \<Rightarrow> (error + unit) \<times> state"
  and converter_pack_partial :: "ty \<Rightarrow> pyval \<Rightarrow> fmt \<Rightarrow> state \<Rightarrow> (error + unit) \<times> state"
  and dataclass_to_bytes_partial ::
    "string \<Rightarrow> (string \<times> ty) list \<Rightarrow> pyval \<Rightarrow> fmt \<Rightarrow> state \<Rightarrow> (error + unit) \<times> state"
where
  "pack_partial t obj format s =
     (case get_converter_or_raise t ''No converter was able to pack raw data'' of
        Inl e \<Rightarrow> (Inl e, s)
      | Inr converter \<Rightarrow>
          (case format of
             FORMAT_BORSCH \<Rightarrow>
               (let old = TAG_TYPE s;
                    (r, s') = converter_pack_partial t obj format (s\<lparr>TAG_TYPE := Some U8\<rparr>)
                in (r, s'\<lparr>TAG_TYPE := old\<rparr>))
           | FORMAT_PASS \<Rightarrow> converter_pack_partial t obj format s
           | FORMAT_ZERO_COPY \<Rightarrow>
               (let old = TAG_TYPE s;
                    (r, s') = converter_pack_partial t obj format (s\<lparr>TAG_TYPE := Some U64\<rparr>)
                in (r, s'\<lparr>TAG_TYPE := old\<rparr>))
           | _ \<Rightarrow> (Inl format_error, s)))"
| "converter_pack_partial (Atomic a) obj format s = atomic_pack_partial a obj s"
| "converter_pack_partial (Unregistered n) obj format s = (Inl (AttributeError TO_BYTES_PARTIAL), s)"
| "converter_pack_partial AutoTagType obj format s =
     (case TAG_TYPE s of
        None \<Rightarrow> (Inl (NoConverter ''No converter was able to pack raw data''), s)
      | Some a \<Rightarrow> pack_partial (Atomic a) obj format s)"
| "converter_pack_partial (Dataclass cls flds) obj format s =
     dataclass_to_bytes_partial cls flds obj format s"
| "converter_pack_partial (FixedLenArray etype len) obj format s =
     (Inl (kwargs_error TO_BYTES_PARTIAL), s)"
| "converter_pack_partial (FixedLenBytes len) obj format s =
     (Inl (kwargs_error TO_BYTES_PARTIAL), s)"
| "converter_pack_partial (FixedLenStr len enc autopad) obj format s =
     (Inl (kwargs_error TO_BYTES_PARTIAL), s)"
| "converter_pack_partial (Vec etype max_length length_type) obj format s =
     (Inl (kwargs_error TO_BYTES_PARTIAL), s)"
| "converter_pack_partial (Bytes max_length length_type) obj format s =
     (Inl (kwargs_error TO_BYTES_PARTIAL), s)"
| "converter_pack_partial (Str max_length length_type enc) obj format s =
     (Inl (kwargs_error TO_BYTES_PARTIAL), s)"
| "dataclass_to_bytes_partial cls [] obj format s = (Inr (), s)"
| "dataclass_to_bytes_partial cls (fld # flds) obj format s =
     (case getattr_obj obj (fst fld) of
        Inl e \<Rightarrow>
          (Inl (enrich ''Failed to serialize dataclass'' (fst fld) cls (snd fld) (Some PNone) e), s)
      | Inr v \<Rightarrow>
          (case pack_partial (snd fld) v format s of
             (Inl e, s') \<Rightarrow>
               (Inl (enrich ''Failed to serialize dataclass'' (fst fld) cls (snd fld) (Some v) e), s')
           | (Inr u, s') \<Rightarrow> dataclass_to_bytes_partial cls flds obj format s'))"
  by pat_completeness auto
termination
proof -
  have rk: "rank t \<le> Suc (size t)" for t
    by (cases t) simp_all
  have fld: "2 * rank (snd f) + 1 < 2 * size_list (size_prod (\<lambda>_. 0) size) (f # fs)"
    for f :: "string \<times> ty" and fs
    using rk [of "snd f"] by (cases f) simp
  show ?thesis
    by (relation "measure (\<lambda>x. case x of
          Inl (t, obj, format, s) \<Rightarrow> 2 * rank t + 1
        | Inr (Inl (t, obj, format, s)) \<Rightarrow> 2 * rank t
        | Inr (Inr (cls, flds, obj, format, s)) \<Rightarrow>
            2 * size_list (size_prod (\<lambda>_. 0) size) flds)")
       (use fld in auto)
qed

section \<open>Unpacking through the catalog\<close>

text \<open>
  The detection of bytes.py:200-209, run when the format is \<^verbatim>\<open>FORMAT_AUTO\<close>: inside
  \<^verbatim>\<open>AutoTagTypeValueManager(U64)\<close>, remember the cursor, move it to the end of the buffer
  (\<^verbatim>\<open>buffer.seek(0, 2)\<close>), compare the converter's \<^verbatim>\<open>calc_max_size\<close> with
  \<^verbatim>\<open>buffer.tell()\<close>, choose \<^verbatim>\<open>FORMAT_ZERO_COPY\<close> if they are equal and \<^verbatim>\<open>FORMAT_BORSCH\<close>
  otherwise, and move the cursor back. If \<^verbatim>\<open>calc_max_size\<close> raises, the manager restores
  the slot and the cursor stays at the end. Any other format is left as it is.
\<close>

definition auto_format :: "ty \<Rightarrow> fmt \<Rightarrow> state \<Rightarrow> (error + fmt) \<times> state" where
  "auto_format t format s =
     (if format = FORMAT_AUTO then
        (let old = TAG_TYPE s;
             s1 = s\<lparr>TAG_TYPE := Some U64\<rparr>;
             p = pos s1;
             s2 = s1\<lparr>pos := length (data s1)\<rparr>
         in case calc_max_size (TAG_TYPE s2) t of
              Inl e \<Rightarrow> (Inl e, s2\<lparr>TAG_TYPE := old\<rparr>)
            | Inr n \<Rightarrow>
                (Inr (if n = pos s2 then FORMAT_ZERO_COPY else FORMAT_BORSCH),
                 s2\<lparr>pos := p, TAG_TYPE := old\<rparr>))
      else (Inr format, s))"

text \<open>
  \<open>unpack_partial\<close> is \<^verbatim>\<open>BytesPodConverterCatalog.unpack_partial\<close> (bytes.py:195).
  \<open>converter_unpack_partial\<close> is \<^verbatim>\<open>converter.unpack_partial(type_, buffer, format=format)\<close>,
  for a self-describing type the call
  \<^verbatim>\<open>getattr(type_, FROM_BYTES_PARTIAL)(buffer, format=format)\<close> of bytes.py:94. As for
  packing, \<^verbatim>\<open>dataclass_from_bytes_partial(cls, buffer, **kwargs)\<close> (bytes.py:62) and
  \<^verbatim>\<open>AutoTagType._from_bytes_partial(cls, buffer, **kwargs)\<close> (bytes.py:131) take the
  keyword, and the container classes, which declare \<^verbatim>\<open>_from_bytes_partial(cls, buffer)\<close>
  (array.py:24, 71, 112, 172, 237, 286), reject it.

  \<open>dataclass_from_bytes_partial cls flds values\<close> is the loop of bytes.py:64 over the
  fields \<open>flds\<close> still to read, \<open>values\<close> being the dictionary filled so far; after the
  last field it returns \<^verbatim>\<open>cls(**values)\<close>.
\<close>

function unpack_partial :: "ty \<Rightarrow> fmt \<Rightarrow> state \<Rightarrow> (error + pyval) \<times> state"
  and converter_unpack_partial :: "ty \<Rightarrow> fmt \<Rightarrow> state \<Rightarrow> (error + pyval) \<times> state"
  and dataclass_from_bytes_partial ::
    "string \<Rightarrow> (string \<times> ty) list \<Rightarrow> (string \<times> pyval) list \<Rightarrow> fmt \<Rightarrow> state
      \<Rightarrow> (error + pyval) \<times> state"
where
  "unpack_partial t format s =
     (case get_converter_or_raise t ''No converter was able to unpack object'' of
        Inl e \<Rightarrow> (Inl e, s)
      | Inr converter \<Rightarrow>
          (case auto_format t format s of
             (Inl e, s1) \<Rightarrow> (Inl e, s1)
           | (Inr format', s1) \<Rightarrow>
               (case format' of
                  FORMAT_BORSCH \<Rightarrow>
                    (let old = TAG_TYPE s1;
                         (r, s') = converter_unpack_partial t format' (s1\<lparr>TAG_TYPE := Some U8\<rparr>)
                     in (r, s'\<lparr>TAG_TYPE := old\<rparr>))
                | FORMAT_ZERO_COPY \<Rightarrow>
                    (let old = TAG_TYPE s1;
                         (r, s') = converter_unpack_partial t format' (s1\<lparr>TAG_TYPE := Some U64\<rparr>)
                     in (r, s'\<lparr>TAG_TYPE := old\<rparr>))
                | FORMAT_PASS \<Rightarrow> converter_unpack_partial t format' s1
                | _ \<Rightarrow> (Inl format_error, s1))))"
| "converter_unpack_partial (Atomic a) format s = atomic_unpack_partial a s"
| "converter_unpack_partial (Unregistered n) format s = (Inl (AttributeError FROM_BYTES_PARTIAL), s)"
| "converter_unpack_partial AutoTagType format s =
     (case TAG_TYPE s of
        None \<Rightarrow> (Inl (NoConverter ''No converter was able to unpack object''), s)
      | Some a \<Rightarrow> unpack_partial (Atomic a) format s)"
| "converter_unpack_partial (Dataclass cls flds) format s =
     dataclass_from_bytes_partial cls flds [] format s"
| "converter_unpack_partial (FixedLenArray etype len) format s =
     (Inl (kwargs_error FROM_BYTES_PARTIAL), s)"
| "converter_unpack_partial (FixedLenBytes len) format s =
     (Inl (kwargs_error FROM_BYTES_PARTIAL), s)"
| "converter_unpack_partial (FixedLenStr len enc autopad) format s =
     (Inl (kwargs_error FROM_BYTES_PARTIAL), s)"
| "converter_unpack_partial (Vec etype max_length length_type) format s =
     (Inl (kwargs_error FROM_BYTES_PARTIAL), s)"
| "converter_unpack_partial (Bytes max_length length_type) format s =
     (Inl (kwargs_error FROM_BYTES_PARTIAL), s)"
| "converter_unpack_partial (Str max_length length_type enc) format s =
     (Inl (kwargs_error FROM_BYTES_PARTIAL), s)"
| "dataclass_from_bytes_partial cls [] values format s = (Inr (PObj cls values), s)"
| "dataclass_from_bytes_partial cls (fld # flds) values format s =
     (case unpack_partial (snd fld) format s of
        (Inl e, s') \<Rightarrow>
          (Inl (enrich ''Failed to deserialize dataclass'' (fst fld) cls (snd fld) None e), s')
      | (Inr v, s') \<Rightarrow>
          dataclass_from_bytes_partial cls flds (AList.update (fst fld) v values) format s')"
  by pat_completeness auto
termination
proof -
  have rk: "rank t \<le> Suc (size t)" for t
    by (cases t) simp_all
  have fld: "2 * rank (snd f) + 1 < 2 * size_list (size_prod (\<lambda>_. 0) size) (f # fs)"
    for f :: "string \<times> ty" and fs
    using rk [of "snd f"] by (cases f) simp
  show ?thesis
    by (relation "measure (\<lambda>x. case x of
          Inl (t, format, s) \<Rightarrow> 2 * rank t + 1
        | Inr (Inl (t, format, s)) \<Rightarrow> 2 * rank t
        | Inr (Inr (cls, flds, values, format, s)) \<Rightarrow>
            2 * size_list (size_prod (\<lambda>_. 0) size) flds)")
       (use fld in auto)
qed

section \<open>Top-level operations\<close>

text \<open>
  \<^verbatim>\<open>BytesPodConverterCatalog.pack\<close> (bytes.py:164) and \<^verbatim>\<open>unpack\<close> (bytes.py:186) on a fresh
  buffer. \<open>tag\<close> is the content of the tag slot before the call; the result carries the
  content after it.
\<close>

definition pack :: "ty \<Rightarrow> pyval \<Rightarrow> fmt \<Rightarrow> atomic option \<Rightarrow> (error + byte list) \<times> atomic option" where
  "pack t obj format tag =
     (case pack_partial t obj format \<lparr>data = [], pos = 0, TAG_TYPE = tag\<rparr> of
        (Inl e, s) \<Rightarrow> (Inl e, TAG_TYPE s)
      | (Inr u, s) \<Rightarrow> (Inr (data s), TAG_TYPE s))"

definition unpack :: "ty \<Rightarrow> byte list \<Rightarrow> bool \<Rightarrow> fmt \<Rightarrow> atomic option \<Rightarrow> (error + pyval) \<times> atomic option" where
  "unpack t raw checked format tag =
     (case unpack_partial t format \<lparr>data = raw, pos = 0, TAG_TYPE = tag\<rparr> of
        (Inl e, s) \<Rightarrow> (Inl e, TAG_TYPE s)
      | (Inr obj, s) \<Rightarrow>
          if checked \<and> pos s < length (data s)
          then (Inl (RuntimeError ''Unused bytes in provided raw data''), TAG_TYPE s)
          else (Inr obj, TAG_TYPE s))"

section \<open>Text encodings\<close>

text \<open>
  \<^verbatim>\<open>str.encode(encoding)\<close> and \<^verbatim>\<open>bytes.decode(encoding)\<close> of the Python library, with the
  default error handling, for the encodings \<^verbatim>\<open>"UTF-8"\<close> (the default of the generators) and
  \<^verbatim>\<open>"ascii"\<close>.
\<close>

definition utf8_encode_char :: "nat \<Rightarrow> byte list option" where
  "utf8_encode_char c =
     (if c < 0x80 then Some [of_nat c]
      else if c < 0x800 then Some [of_nat (0xC0 + c div 64), of_nat (0x80 + c mod 64)]
      else if 0xD800 \<le> c \<and> c \<le> 0xDFFF then None
      else if c < 0x10000 then
        Some [of_nat (0xE0 + c div 4096), of_nat (0x80 + c div 64 mod 64), of_nat (0x80 + c mod 64)]
      else if c < 0x110000 then
        Some [of_nat (0xF0 + c div 262144), of_nat (0x80 + c div 4096 mod 64),
              of_nat (0x80 + c div 64 mod 64), of_nat (0x80 + c mod 64)]
      else None)"

definition ascii_encode_char :: "nat \<Rightarrow> byte list option" where
  "ascii_encode_char c = (if c < 0x80 then Some [of_nat c] else None)"

fun encode_chars :: "(nat \<Rightarrow> byte list option) \<Rightarrow> nat list \<Rightarrow> error + byte list" where
  "encode_chars f [] = Inr []"
| "encode_chars f (c # cs) =
     (case f c of
        None \<Rightarrow> Inl UnicodeError
      | Some bs \<Rightarrow> (case encode_chars f cs of Inl e \<Rightarrow> Inl e | Inr rest \<Rightarrow> Inr (bs @ rest)))"

definition py_encode :: "encoding \<Rightarrow> nat list \<Rightarrow> error + byte list" where
  "py_encode enc cs =
     (case enc of UTF_8 \<Rightarrow> encode_chars utf8_encode_char cs
                | ASCII \<Rightarrow> encode_chars ascii_encode_char cs)"

definition continuation :: "byte \<Rightarrow> nat option" where
  "continuation b = (if 0x80 \<le> unat b \<and> unat b < 0xC0 then Some (unat b - 0x80) else None)"

text \<open>One code point from the front of a UTF-8 byte string, with the bytes that follow
  it; overlong forms, surrogates and values beyond \<^verbatim>\<open>0x10FFFF\<close> are errors.\<close>

fun utf8_decode_char :: "byte list \<Rightarrow> (nat \<times> byte list) option" where
  "utf8_decode_char [] = None"
| "utf8_decode_char (b0 # bs) =
     (let x = unat b0 in
      if x < 0x80 then Some (x, bs)
      else if 0xC2 \<le> x \<and> x < 0xE0 then
        (case bs of
           b1 # r \<Rightarrow>
             (case continuation b1 of
                Some y1 \<Rightarrow> Some ((x - 0xC0) * 64 + y1, r)
              | None \<Rightarrow> None)
         | _ \<Rightarrow> None)
      else if 0xE0 \<le> x \<and> x < 0xF0 then
        (case bs of
           b1 # b2 # r \<Rightarrow>
             (case (continuation b1, continuation b2) of
                (Some y1, Some y2) \<Rightarrow>
                  (let c = (x - 0xE0) * 4096 + y1 * 64 + y2 in
                   if 0x800 \<le> c \<and> \<not> (0xD800 \<le> c \<and> c \<le> 0xDFFF) then Some (c, r) else None)
              | _ \<Rightarrow> None)
         | _ \<Rightarrow> None)
      else if 0xF0 \<le> x \<and> x < 0xF5 then
        (case bs of
           b1 # b2 # b3 # r \<Rightarrow>
             (case (continuation b1, continuation b2, continuation b3) of
                (Some y1, Some y2, Some y3) \<Rightarrow>
                  (let c = (x - 0xF0) * 262144 + y1 * 4096 + y2 * 64 + y3 in
                   if 0x10000 \<le> c \<and> c < 0x110000 then Some (c, r) else None)
              | _ \<Rightarrow> None)
         | _ \<Rightarrow> None)
      else None)"

definition ascii_decode_char :: "byte list \<Rightarrow> (nat \<times> byte list) option" where
  "ascii_decode_char bs =
     (case bs of [] \<Rightarrow> None | b # r \<Rightarrow> if unat b < 0x80 then Some (unat b, r) else None)"

text \<open>Decoding a byte string one code point at a time; \<open>n\<close> bounds the number of steps
  and is the length of the input, which every step shortens.\<close>

fun decode_chars :: "(byte list \<Rightarrow> (nat \<times> byte list) option) \<Rightarrow> nat \<Rightarrow> byte list \<Rightarrow> error + nat list" where
  "decode_chars f n [] = Inr []"
| "decode_chars f 0 (b # bs) = Inl UnicodeError"
| "decode_chars f (Suc n) (b # bs) =
     (case f (b # bs) of
        None \<Rightarrow> Inl UnicodeError
      | Some (c, r) \<Rightarrow> (case decode_chars f n r of Inl e \<Rightarrow> Inl e | Inr cs \<Rightarrow> Inr (c # cs)))"

definition py_decode :: "encoding \<Rightarrow> byte list \<Rightarrow> error + nat list" where
  "py_decode enc bs =
     (case enc of UTF_8 \<Rightarrow> decode_chars utf8_decode_char (length bs) bs
                | ASCII \<Rightarrow> decode_chars ascii_decode_char (length bs) bs)"

section \<open>The container classes\<close>

text \<open>\<^verbatim>\<open>len(obj)\<close> and iteration over \<^verbatim>\<open>obj\<close>; integers, \<^verbatim>\<open>None\<close> and plain objects have
  neither.\<close>

fun py_len :: "pyval \<Rightarrow> error + nat" where
  "py_len (PList xs) = Inr (length xs)"
| "py_len (PBytes bs) = Inr (length bs)"
| "py_len (PStr cs) = Inr (length cs)"
| "py_len v = Inl (TypeError ''object has no len()'')"

fun py_iter :: "pyval \<Rightarrow> error + pyval list" where
  "py_iter (PList xs) = Inr xs"
| "py_iter (PBytes bs) = Inr (map (\<lambda>b. PInt (uint b)) bs)"
| "py_iter (PStr cs) = Inr (map (\<lambda>c. PStr [c]) cs)"
| "py_iter v = Inl (TypeError ''object is not iterable'')"

text \<open>\<^verbatim>\<open>bytes.ljust(width, fill)\<close>: pad on the right up to \<open>width\<close>; a longer value is
  returned as it is.\<close>

definition ljust :: "byte list \<Rightarrow> nat \<Rightarrow> byte \<Rightarrow> byte list" where
  "ljust bs width fill = bs @ replicate (width - length bs) fill"

text \<open>
  The bodies of the hooks of array.py, as functions of the parameters they declare. The
  element loops call \<^verbatim>\<open>BYTES_CATALOG.pack_partial(type, buffer, elem)\<close> and
  \<^verbatim>\<open>BYTES_CATALOG.unpack_partial(type, buffer)\<close> without a format, that is with the defaults
  \<^verbatim>\<open>FORMAT_BORSCH\<close> (bytes.py:170) and \<^verbatim>\<open>FORMAT_AUTO\<close> (bytes.py:195).
\<close>

fun pack_elems :: "ty \<Rightarrow> pyval list \<Rightarrow> state \<Rightarrow> (error + unit) \<times> state" where
  "pack_elems etype [] s = (Inr (), s)"
| "pack_elems etype (elem # rest) s =
     (case pack_partial etype elem FORMAT_BORSCH s of
        (Inl e, s') \<Rightarrow> (Inl e, s')
      | (Inr u, s') \<Rightarrow> pack_elems etype rest s')"

fun unpack_elems :: "ty \<Rightarrow> nat \<Rightarrow> pyval list \<Rightarrow> state \<Rightarrow> (error + pyval) \<times> state" where
  "unpack_elems etype 0 result s = (Inr (PList result), s)"
| "unpack_elems etype (Suc k) result s =
     (case unpack_partial etype FORMAT_AUTO s of
        (Inl e, s') \<Rightarrow> (Inl e, s')
      | (Inr v, s') \<Rightarrow> unpack_elems etype k (result @ [v]) s')"

subsection \<open>\<^verbatim>\<open>_fixed_len_array\<close> (array.py:8)\<close>

definition fixed_len_array_from_bytes_partial :: "ty \<Rightarrow> nat \<Rightarrow> state \<Rightarrow> (error + pyval) \<times> state" where
  "fixed_len_array_from_bytes_partial etype len s = unpack_elems etype len [] s"

definition fixed_len_array_to_bytes_partial :: "ty \<Rightarrow> nat \<Rightarrow> pyval \<Rightarrow> state \<Rightarrow> (error + unit) \<times> state" where
  "fixed_len_array_to_bytes_partial etype len obj s =
     (case py_iter obj of Inl e \<Rightarrow> (Inl e, s) | Inr elems \<Rightarrow> pack_elems etype elems s)"

subsection \<open>\<^verbatim>\<open>_fixed_len_bytes\<close> (array.py:59)\<close>

definition fixed_len_bytes_from_bytes_partial :: "nat \<Rightarrow> state \<Rightarrow> (error + pyval) \<times> state" where
  "fixed_len_bytes_from_bytes_partial len s =
     (let (bs, s') = buffer_read (int len) s in (Inr (PBytes bs), s'))"

definition fixed_len_bytes_to_bytes_partial :: "nat \<Rightarrow> pyval \<Rightarrow> state \<Rightarrow> (error + unit) \<times> state" where
  "fixed_len_bytes_to_bytes_partial len obj s =
     (case obj of
        PBytes bs \<Rightarrow> (Inr (), buffer_write (ljust bs len 0) s)
      | PStr cs \<Rightarrow> (Inl (TypeError ''ljust: the fill character must be a str''), s)
      | _ \<Rightarrow> (Inl (AttributeError ''ljust''), s))"

subsection \<open>\<^verbatim>\<open>_fixed_len_str\<close> (array.py:100)\<close>

text \<open>The loop of array.py:116-118: the index of the first zero byte at or after
  \<open>last'\<close> (the variable \<^verbatim>\<open>last\<close>), or the length if there is none.\<close>

function first_zero :: "byte list \<Rightarrow> nat \<Rightarrow> nat" where
  "first_zero encoded last' =
     (if last' < length encoded \<and> encoded ! last' \<noteq> 0 then first_zero encoded (last' + 1)
      else last')"
  by pat_completeness auto
termination
  by (relation "measure (\<lambda>(encoded, last'). length encoded - last')") auto

declare first_zero.simps [simp del]

definition fixed_len_str_from_bytes_partial ::
  "nat \<Rightarrow> encoding \<Rightarrow> bool \<Rightarrow> state \<Rightarrow> (error + pyval) \<times> state" where
  "fixed_len_str_from_bytes_partial len enc autopad s =
     (let (encoded, s') = buffer_read (int len) s;
          encoded' = (if autopad then take (first_zero encoded 0) encoded else encoded)
      in case py_decode enc encoded' of
           Inl e \<Rightarrow> (Inl e, s')
         | Inr cs \<Rightarrow> (Inr (PStr cs), s'))"

definition fixed_len_str_to_bytes_partial ::
  "nat \<Rightarrow> encoding \<Rightarrow> bool \<Rightarrow> pyval \<Rightarrow> state \<Rightarrow> (error + unit) \<times> state" where
  "fixed_len_str_to_bytes_partial len enc autopad obj s =
     (case obj of
        PStr cs \<Rightarrow>
          (case py_encode enc cs of
             Inl e \<Rightarrow> (Inl e, s)
           | Inr encoded \<Rightarrow>
               if length encoded > len then (Inl (ValueError ''len(value) > length''), s)
               else if length encoded < len \<and> \<not> autopad then (Inl (ValueError ''len(value) < size''), s)
               else (Inr (), buffer_write (ljust encoded len 0) s))
      | _ \<Rightarrow> (Inl (AttributeError ''encode''), s))"

subsection \<open>\<^verbatim>\<open>_var_len_array\<close> (array.py:147)\<close>

definition length_error :: error where
  "length_error = RuntimeError ''actual_length > max_length''"

definition compare_error :: error where
  "compare_error = TypeError ''> not supported between the length and int''"

definition var_len_array_from_bytes_partial ::
  "ty \<Rightarrow> nat \<Rightarrow> ty \<Rightarrow> state \<Rightarrow> (error + pyval) \<times> state" where
  "var_len_array_from_bytes_partial etype max_length length_type s =
     (case unpack_partial length_type FORMAT_AUTO s of
        (Inl e, s') \<Rightarrow> (Inl e, s')
      | (Inr (PInt n), s') \<Rightarrow>
          if n > int max_length then (Inl length_error, s')
          else unpack_elems etype (nat n) [] s'
      | (Inr v, s') \<Rightarrow> (Inl compare_error, s'))"

definition var_len_array_to_bytes_partial ::
  "ty \<Rightarrow> nat \<Rightarrow> ty \<Rightarrow> pyval \<Rightarrow> state \<Rightarrow> (error + unit) \<times> state" where
  "var_len_array_to_bytes_partial etype max_length length_type obj s =
     (case py_len obj of
        Inl e \<Rightarrow> (Inl e, s)
      | Inr n \<Rightarrow>
          if n > max_length then (Inl length_error, s)
          else
            (case pack_partial length_type (PInt (int n)) FORMAT_BORSCH s of
               (Inl e, s') \<Rightarrow> (Inl e, s')
             | (Inr u, s') \<Rightarrow>
                 (case py_iter obj of
                    Inl e \<Rightarrow> (Inl e, s')
                  | Inr elems \<Rightarrow> pack_elems etype elems s')))"

subsection \<open>\<^verbatim>\<open>_var_len_bytes\<close> (array.py:217)\<close>

definition var_len_bytes_from_bytes_partial :: "nat \<Rightarrow> ty \<Rightarrow> state \<Rightarrow> (error + pyval) \<times> state" where
  "var_len_bytes_from_bytes_partial max_length length_type s =
     (case unpack_partial length_type FORMAT_AUTO s of
        (Inl e, s') \<Rightarrow> (Inl e, s')
      | (Inr (PInt n), s') \<Rightarrow>
          if n > int max_length then (Inl length_error, s')
          else (let (bs, s'') = buffer_read n s' in (Inr (PBytes bs), s''))
      | (Inr v, s') \<Rightarrow> (Inl compare_error, s'))"

definition var_len_bytes_to_bytes_partial ::
  "nat \<Rightarrow> ty \<Rightarrow> pyval \<Rightarrow> state \<Rightarrow> (error + unit) \<times> state" where
  "var_len_bytes_to_bytes_partial max_length length_type obj s =
     (case py_len obj of
        Inl e \<Rightarrow> (Inl e, s)
      | Inr n \<Rightarrow>
          if n > max_length then (Inl length_error, s)
          else
            (case pack_partial length_type (PInt (int n)) FORMAT_BORSCH s of
               (Inl e, s') \<Rightarrow> (Inl e, s')
             | (Inr u, s') \<Rightarrow>
                 (case obj of
                    PBytes bs \<Rightarrow> (Inr (), buffer_write bs s')
                  | _ \<Rightarrow> (Inl (TypeError ''a bytes-like object is required''), s'))))"

subsection \<open>\<^verbatim>\<open>_var_len_str\<close> (array.py:266)\<close>

definition var_len_str_from_bytes_partial ::
  "nat \<Rightarrow> ty \<Rightarrow> encoding \<Rightarrow> state \<Rightarrow> (error + pyval) \<times> state" where
  "var_len_str_from_bytes_partial max_length length_type enc s =
     (case unpack_partial length_type FORMAT_AUTO s of
        (Inl e, s') \<Rightarrow> (Inl e, s')
      | (Inr (PInt n), s') \<Rightarrow>
          if n > int max_length then (Inl length_error, s')
          else
            (let (bs, s'') = buffer_read n s'
             in case py_decode enc bs of
                  Inl e \<Rightarrow> (Inl e, s'')
                | Inr cs \<Rightarrow> (Inr (PStr cs), s''))
      | (Inr v, s') \<Rightarrow> (Inl compare_error, s'))"

definition var_len_str_to_bytes_partial ::
  "nat \<Rightarrow> ty \<Rightarrow> encoding \<Rightarrow> pyval \<Rightarrow> state \<Rightarrow> (error + unit) \<times> state" where
  "var_len_str_to_bytes_partial max_length length_type enc obj s =
     (case py_len obj of
        Inl e \<Rightarrow> (Inl e, s)
      | Inr n \<Rightarrow>
          if n > max_length then (Inl length_error, s)
          else
            (case pack_partial length_type (PInt (int n)) FORMAT_BORSCH s of
               (Inl e, s') \<Rightarrow> (Inl e, s')
             | (Inr u, s') \<Rightarrow>
                 (case obj of
                    PStr cs \<Rightarrow>
                      (case py_encode enc cs of
                         Inl e \<Rightarrow> (Inl e, s')
                       | Inr encoded \<Rightarrow> (Inr (), buffer_write encoded s'))
                  | _ \<Rightarrow> (Inl (AttributeError ''encode''), s'))))"

section \<open>Properties\<close>

declare pack_partial.simps [simp del] unpack_partial.simps [simp del]

subsection \<open>Observers\<close>

text \<open>The path of a \<^verbatim>\<open>PodPathError\<close>; no other exception carries one.\<close>

fun error_path :: "error \<Rightarrow> string list" where
  "error_path (PodPathError m path t v c) = path"
| "error_path e = []"

fun is_path_error :: "error \<Rightarrow> bool" where
  "is_path_error (PodPathError m path t v c) = True"
| "is_path_error e = False"

text \<open>
  The values within the bounds of a type built from atomic types and dataclasses: an
  integer in the range of its atomic type, and an object of the dataclass whose
  attributes are, in declaration order, the fields of the class (with pairwise different
  names), each within the bounds of its type.
\<close>

fun conforms :: "ty \<Rightarrow> pyval \<Rightarrow> bool"
  and conforms_fields :: "(string \<times> ty) list \<Rightarrow> (string \<times> pyval) list \<Rightarrow> bool"
where
  "conforms (Atomic a) v = (case v of PInt n \<Rightarrow> 0 \<le> n \<and> n < 2 ^ (8 * atomic_size a) | _ \<Rightarrow> False)"
| "conforms (Dataclass cls flds) v =
     (case v of
        PObj c attrs \<Rightarrow> c = cls \<and> distinct (map fst flds) \<and> conforms_fields flds attrs
      | _ \<Rightarrow> False)"
| "conforms t v = False"
| "conforms_fields [] attrs = (attrs = [])"
| "conforms_fields (fld # flds) attrs =
     (case attrs of
        [] \<Rightarrow> False
      | kv # rest \<Rightarrow> fst kv = fst fld \<and> conforms (snd fld) (snd kv) \<and> conforms_fields flds rest)"

text \<open>The wire layout of such a value: the little-endian bytes of an integer, and for an
  object the layouts of its fields one after the other.\<close>

fun wire :: "ty \<Rightarrow> pyval \<Rightarrow> byte list"
  and wire_fields :: "(string \<times> ty) list \<Rightarrow> (string \<times> pyval) list \<Rightarrow> byte list"
where
  "wire (Atomic a) v = (case v of PInt n \<Rightarrow> le_bytes (atomic_size a) (nat n) | _ \<Rightarrow> [])"
| "wire (Dataclass cls flds) v = (case v of PObj c attrs \<Rightarrow> wire_fields flds attrs | _ \<Rightarrow> [])"
| "wire t v = []"
| "wire_fields [] attrs = []"
| "wire_fields (fld # flds) attrs =
     (case attrs of [] \<Rightarrow> [] | kv # rest \<Rightarrow> wire (snd fld) (snd kv) @ wire_fields flds rest)"

text \<open>The buffer after \<open>bs\<close> has been written at its end.\<close>

definition appended :: "byte list \<Rightarrow> state \<Rightarrow> state" where
  "appended bs s = s\<lparr>data := data s @ bs, pos := length (data s) + length bs\<rparr>"

subsection \<open>Container types through the catalog\<close>

text \<open>A type generated by array.py is a container.\<close>

fun is_container :: "ty \<Rightarrow> bool" where
  "is_container (FixedLenArray etype len) = True"
| "is_container (FixedLenBytes len) = True"
| "is_container (FixedLenStr len enc autopad) = True"
| "is_container (Vec etype max_length length_type) = True"
| "is_container (Bytes max_length length_type) = True"
| "is_container (Str max_length length_type enc) = True"
| "is_container t = False"

lemma converter_pack_partial_container:
  "is_container t \<Longrightarrow> converter_pack_partial t obj format s = (Inl (kwargs_error TO_BYTES_PARTIAL), s)"
  by (cases t) simp_all

lemma converter_unpack_partial_container:
  "is_container t \<Longrightarrow> converter_unpack_partial t format s = (Inl (kwargs_error FROM_BYTES_PARTIAL), s)"
  by (cases t) simp_all

lemma get_converter_container:
  "is_container t \<Longrightarrow> get_converter_or_raise t msg = Inr SelfBytesPodConverter"
  by (cases t) simp_all

lemma pack_partial_container:
  assumes "is_container t"
  shows "\<exists>e. pack_partial t obj format s = (Inl e, s)"
  using assms
  by (cases format)
     (simp_all add: pack_partial.simps get_converter_container converter_pack_partial_container)

text \<open>
  C1 (round trip through \<^verbatim>\<open>pack\<close> and \<^verbatim>\<open>unpack\<close>). The code does not round-trip a
  container value: packing the list \<^verbatim>\<open>[1, 2]\<close> as \<^verbatim>\<open>FixedLenArray[U8, 2]\<close> raises a
  \<^verbatim>\<open>TypeError\<close>, in the canonical and in the zero-copy format, because
  \<^verbatim>\<open>SelfBytesPodConverter.pack_partial\<close> passes the keyword \<^verbatim>\<open>format\<close> to a hook that
  declares no keyword parameters; no bytes are produced that \<^verbatim>\<open>unpack\<close> could read back.
\<close>

theorem pack_fixed_len_array_raises:
  "pack (FixedLenArray (Atomic U8) 2) (PList [PInt 1, PInt 2]) FORMAT_BORSCH None
     = (Inl (kwargs_error TO_BYTES_PARTIAL), None)
   \<and> pack (FixedLenArray (Atomic U8) 2) (PList [PInt 1, PInt 2]) FORMAT_ZERO_COPY None
     = (Inl (kwargs_error TO_BYTES_PARTIAL), None)"
  by (simp add: pack_def pack_partial.simps)

text \<open>
  C2 (static-size exactness). \<^verbatim>\<open>FixedLenBytes[2]\<close> is static with maximum size 2, but
  packing the two bytes \<^verbatim>\<open>b"ab"\<close> through the catalog raises the same \<^verbatim>\<open>TypeError\<close>, so
  no encoding of length 2 is produced; and the hook itself, called with a value of three
  bytes, writes three bytes.
\<close>

theorem static_fixed_len_bytes_pack_raises:
  "is_static (FixedLenBytes 2) = Inr True
   \<and> calc_max_size None (FixedLenBytes 2) = Inr 2
   \<and> pack (FixedLenBytes 2) (PBytes [97, 98]) FORMAT_BORSCH None
       = (Inl (kwargs_error TO_BYTES_PARTIAL), None)
   \<and> fixed_len_bytes_to_bytes_partial 2 (PBytes [97, 98, 99]) \<lparr>data = [], pos = 0, TAG_TYPE = None\<rparr>
       = (Inr (), \<lparr>data = [97, 98, 99], pos = 3, TAG_TYPE = None\<rparr>)"
  by (simp add: pack_def pack_partial.simps IS_STATIC_def fixed_len_bytes_to_bytes_partial_def
      ljust_def buffer_write_def)

text \<open>
  C3 (default \<^verbatim>\<open>max_length\<close>). With \<^verbatim>\<open>max_length\<close> and \<^verbatim>\<open>length_type\<close> left out, the three
  generators produce a class with \<^verbatim>\<open>max_length = 16\<close>, which is 2 raised to the number of
  bytes of \<^verbatim>\<open>U32\<close> and not to its number of bits.
\<close>

theorem default_max_length_is_16:
  "var_len_array tag etype None None = Inr (Vec etype 16 (Atomic U32))
   \<and> var_len_bytes tag None None = Inr (Bytes 16 (Atomic U32))
   \<and> var_len_str tag None None enc = Inr (Str 16 (Atomic U32) enc)"
  by (simp add: var_len_array_def var_len_bytes_def var_len_str_def default_length_type_def
      default_max_length_def)

text \<open>
  C4 (static check of the variable containers). For the class of \<^verbatim>\<open>_var_len_array\<close> the
  query through the catalog raises an \<^verbatim>\<open>AttributeError\<close>: the class defines \<^verbatim>\<open>is_static\<close>
  and the converter looks up \<^verbatim>\<open>_is_static\<close>. For the classes of \<^verbatim>\<open>_var_len_bytes\<close> and
  \<^verbatim>\<open>_var_len_str\<close> it returns \<^verbatim>\<open>False\<close>.
\<close>

theorem is_static_var_len_array_raises:
  "is_static (Vec etype max_length length_type) = Inl (AttributeError ''_is_static'')
   \<and> is_static (Bytes max_length length_type) = Inr False
   \<and> is_static (Str max_length length_type enc) = Inr False"
  by (simp add: IS_STATIC_def)

subsection \<open>The buffer\<close>

lemma buffer_write_at_end:
  "pos s = length (data s) \<Longrightarrow> data (buffer_write bs s) = data s @ bs"
  by (simp add: buffer_write_def)

lemma buffer_write_pos:
  "pos (buffer_write bs s) = pos s + length bs"
  by (simp add: buffer_write_def)

lemma buffer_write_TAG_TYPE:
  "TAG_TYPE (buffer_write bs s) = TAG_TYPE s"
  by (simp add: buffer_write_def)

subsection \<open>Fixed-length bytes\<close>

text \<open>
  C10 (over-long input to \<^verbatim>\<open>FixedLenBytes[N]\<close>). The pack step
  \<^verbatim>\<open>_to_bytes_partial(obj, buffer)\<close> of the class never raises on a bytes value \<open>b\<close>: it
  writes \<^verbatim>\<open>b.ljust(N, b"\x00")\<close>. If \<open>b\<close> is longer than \<open>N\<close> this is \<open>b\<close> itself, all
  of it, so more than the \<open>N\<close> bytes that \<^verbatim>\<open>_calc_max_size\<close> reports; the bytes written
  number exactly \<open>N\<close> if and only if \<open>b\<close> has at most \<open>N\<close> bytes, and then they are \<open>b\<close>
  followed by zeros.
\<close>

theorem fixed_len_bytes_to_bytes_partial_writes:
  "fixed_len_bytes_to_bytes_partial len (PBytes b) s = (Inr (), buffer_write (ljust b len 0) s)
   \<and> (len < length b \<longrightarrow> ljust b len 0 = b)
   \<and> (length (ljust b len 0) = len \<longleftrightarrow> length b \<le> len)
   \<and> (length b \<le> len \<longrightarrow> ljust b len 0 = b @ replicate (len - length b) 0)
   \<and> data (snd (fixed_len_bytes_to_bytes_partial len (PBytes b) \<lparr>data = [], pos = 0, TAG_TYPE = tag\<rparr>))
       = ljust b len 0
   \<and> calc_max_size tag (FixedLenBytes len) = Inr len"
  by (auto simp: fixed_len_bytes_to_bytes_partial_def ljust_def buffer_write_def)

theorem fixed_len_bytes_to_bytes_partial_writes_witness:
  "fixed_len_bytes_to_bytes_partial 2 (PBytes [97, 98, 99]) \<lparr>data = [], pos = 0, TAG_TYPE = None\<rparr>
     = (Inr (), \<lparr>data = [97, 98, 99], pos = 3, TAG_TYPE = None\<rparr>)
   \<and> (2::nat) < length [97, 98, 99 :: byte] \<and> ljust [97, 98, 99] 2 0 = [97, 98, 99]
   \<and> length [97 :: byte] \<le> 2 \<and> ljust [97] 2 0 = [97, 0]"
  using fixed_len_bytes_to_bytes_partial_writes [of 2 "[97, 98, 99]" "\<lparr>data = [], pos = 0, TAG_TYPE = None\<rparr>" None]
    fixed_len_bytes_to_bytes_partial_writes [of 2 "[97]" "\<lparr>data = [], pos = 0, TAG_TYPE = None\<rparr>" None]
  by (simp add: buffer_write_def)

subsection \<open>Fixed-length strings\<close>

lemma first_zero_takeWhile:
  "k \<le> length encoded \<Longrightarrow>
   first_zero encoded k = k + length (takeWhile (\<lambda>b. b \<noteq> 0) (drop k encoded))"
proof (induction encoded k rule: first_zero.induct)
  case (1 encoded k)
  show ?case
  proof (cases "k < length encoded \<and> encoded ! k \<noteq> 0")
    case True
    then have "drop k encoded = encoded ! k # drop (Suc k) encoded"
      by (simp add: Cons_nth_drop_Suc)
    with True 1 show ?thesis by (subst first_zero.simps) simp
  next
    case False
    show ?thesis
    proof (cases "k < length encoded")
      case True
      with False have z: "encoded ! k = 0" by simp
      from True have "drop k encoded = encoded ! k # drop (Suc k) encoded"
        by (simp add: Cons_nth_drop_Suc)
      with z False show ?thesis by (subst first_zero.simps) simp
    next
      case False
      then show ?thesis by (subst first_zero.simps) simp
    qed
  qed
qed

lemma take_first_zero:
  "take (first_zero encoded 0) encoded = takeWhile (\<lambda>b. b \<noteq> 0) encoded"
proof -
  have "first_zero encoded 0 = length (takeWhile (\<lambda>b. b \<noteq> 0) encoded)"
    using first_zero_takeWhile [of 0 encoded] by simp
  then show ?thesis
    by (metis takeWhile_eq_take)
qed

lemma encode_chars_length:
  assumes "\<And>c bs. f c = Some bs \<Longrightarrow> bs \<noteq> []"
  shows "encode_chars f cs = Inr encoded \<Longrightarrow> length cs \<le> length encoded"
proof (induction cs arbitrary: encoded)
  case Nil
  then show ?case by simp
next
  case (Cons c cs)
  then obtain bs rest where b: "f c = Some bs" and r: "encode_chars f cs = Inr rest"
    and e: "encoded = bs @ rest"
    by (auto split: option.splits sum.splits)
  from assms [OF b] have "1 \<le> length bs" by (cases bs) simp_all
  with Cons.IH [OF r] e show ?case by simp
qed

lemma py_encode_length:
  "py_encode enc cs = Inr encoded \<Longrightarrow> length cs \<le> length encoded"
proof (cases enc)
  case UTF_8
  assume "py_encode enc cs = Inr encoded"
  with UTF_8 have "encode_chars utf8_encode_char cs = Inr encoded"
    by (simp add: py_encode_def)
  then show ?thesis
    by (rule encode_chars_length [rotated]) (auto simp: utf8_encode_char_def split: if_splits)
next
  case ASCII
  assume "py_encode enc cs = Inr encoded"
  with ASCII have "encode_chars ascii_encode_char cs = Inr encoded"
    by (simp add: py_encode_def)
  then show ?thesis
    by (rule encode_chars_length [rotated]) (auto simp: ascii_encode_char_def split: if_splits)
qed

lemma fixed_len_str_to_bytes_partial_long:
  assumes "len < length cs"
  shows "\<exists>e. fixed_len_str_to_bytes_partial len enc autopad (PStr cs) s = (Inl e, s)"
proof (cases "py_encode enc cs")
  case (Inl e)
  then show ?thesis by (simp add: fixed_len_str_to_bytes_partial_def)
next
  case (Inr encoded)
  with assms py_encode_length [OF Inr] show ?thesis
    by (simp add: fixed_len_str_to_bytes_partial_def)
qed

lemma fixed_len_str_from_bytes_partial_eq:
  "fixed_len_str_from_bytes_partial len enc autopad s =
     (let encoded = take len (drop (pos s) (data s));
          s' = s\<lparr>pos := pos s + length encoded\<rparr>
      in case py_decode enc (if autopad then takeWhile (\<lambda>b. b \<noteq> 0) encoded else encoded) of
           Inl e \<Rightarrow> (Inl e, s')
         | Inr cs \<Rightarrow> (Inr (PStr cs), s'))"
proof -
  have br: "buffer_read (int len) s
      = (take len (drop (pos s) (data s)), s\<lparr>pos := pos s + length (take len (drop (pos s) (data s)))\<rparr>)"
    unfolding buffer_read_def Let_def by simp
  show ?thesis
    unfolding fixed_len_str_from_bytes_partial_def br Let_def prod.case take_first_zero
    by (rule refl)
qed

lemma py_encode_hi: "py_encode UTF_8 [104, 105] = Inr [104, 105]"
  by (simp add: py_encode_def utf8_encode_char_def)

lemma unat_hi: "unat (104 :: byte) = 104" "unat (105 :: byte) = 105"
  by simp_all

lemma py_decode_hi: "py_decode UTF_8 [104, 105] = Inr [104, 105]"
  by (simp add: py_decode_def eval_nat_numeral(1) unat_hi del: unat_numeral)

lemma rep6: "replicate 6 x = [x, x, x, x, x, x]"
  by (simp add: eval_nat_numeral)

text \<open>
  C9 (fixed string codec), as the claim states it: unpacking \<^verbatim>\<open>FixedLenStr[8]\<close> reads
  exactly 8 bytes. On a buffer that holds only the two bytes of \<^verbatim>\<open>"hi"\<close> the code reads
  those two, raises nothing and returns \<^verbatim>\<open>"hi"\<close> with the cursor at 2.
\<close>

theorem fixed_len_str_short_read:
  "fixed_len_str_from_bytes_partial 8 UTF_8 True \<lparr>data = [104, 105], pos = 0, TAG_TYPE = None\<rparr>
     = (Inr (PStr [104, 105]), \<lparr>data = [104, 105], pos = 2, TAG_TYPE = None\<rparr>)"
  by (simp add: fixed_len_str_from_bytes_partial_eq py_decode_hi)

text \<open>
  C9 (fixed string codec), amended. For the pack step \<^verbatim>\<open>_to_bytes_partial(obj, buffer)\<close> of
  \<^verbatim>\<open>FixedLenStr[N]\<close> on a string with encoding \<open>encoded\<close>: an encoding longer than \<open>N\<close>
  raises \<^verbatim>\<open>ValueError\<close> and writes nothing; with \<^verbatim>\<open>autopad\<close> off a shorter one does too;
  otherwise the encoding followed by zeros, \<open>N\<close> bytes in all, is written; a string of
  more than \<open>N\<close> characters always fails. The unpack step reads the next \<open>N\<close> bytes, or
  all that remain if fewer do, cuts them at the first zero byte if \<^verbatim>\<open>autopad\<close> is on, and
  decodes the rest.
\<close>

theorem fixed_len_str_codec:
  "(py_encode enc cs = Inr encoded \<and> len < length encoded \<longrightarrow>
      fixed_len_str_to_bytes_partial len enc autopad (PStr cs) s
        = (Inl (ValueError ''len(value) > length''), s))
   \<and> (py_encode enc cs = Inr encoded \<and> length encoded < len \<and> \<not> autopad \<longrightarrow>
      fixed_len_str_to_bytes_partial len enc autopad (PStr cs) s
        = (Inl (ValueError ''len(value) < size''), s))
   \<and> (py_encode enc cs = Inr encoded \<and> length encoded \<le> len \<and> (autopad \<or> length encoded = len) \<longrightarrow>
      fixed_len_str_to_bytes_partial len enc autopad (PStr cs) s
        = (Inr (), buffer_write (encoded @ replicate (len - length encoded) 0) s)
      \<and> length (encoded @ replicate (len - length encoded) 0) = len)
   \<and> (len < length cs \<longrightarrow>
      (\<exists>e. fixed_len_str_to_bytes_partial len enc autopad (PStr cs) s = (Inl e, s)))
   \<and> fixed_len_str_from_bytes_partial len enc autopad s =
       (let encoded = take len (drop (pos s) (data s));
            s' = s\<lparr>pos := pos s + length encoded\<rparr>
        in case py_decode enc (if autopad then takeWhile (\<lambda>b. b \<noteq> 0) encoded else encoded) of
             Inl e \<Rightarrow> (Inl e, s')
           | Inr cs \<Rightarrow> (Inr (PStr cs), s'))
   \<and> length (take len (drop (pos s) (data s))) = min len (length (data s) - pos s)"
proof -
  have p1: "py_encode enc cs = Inr encoded \<and> len < length encoded \<longrightarrow>
      fixed_len_str_to_bytes_partial len enc autopad (PStr cs) s
        = (Inl (ValueError ''len(value) > length''), s)"
    by (simp add: fixed_len_str_to_bytes_partial_def)
  have p2: "py_encode enc cs = Inr encoded \<and> length encoded < len \<and> \<not> autopad \<longrightarrow>
      fixed_len_str_to_bytes_partial len enc autopad (PStr cs) s
        = (Inl (ValueError ''len(value) < size''), s)"
    by (simp add: fixed_len_str_to_bytes_partial_def)
  have p3: "py_encode enc cs = Inr encoded \<and> length encoded \<le> len \<and> (autopad \<or> length encoded = len) \<longrightarrow>
      fixed_len_str_to_bytes_partial len enc autopad (PStr cs) s
        = (Inr (), buffer_write (encoded @ replicate (len - length encoded) 0) s)
      \<and> length (encoded @ replicate (len - length encoded) 0) = len"
    by (auto simp: fixed_len_str_to_bytes_partial_def ljust_def)
  have p4: "len < length cs \<longrightarrow>
      (\<exists>e. fixed_len_str_to_bytes_partial len enc autopad (PStr cs) s = (Inl e, s))"
    by (rule impI) (rule fixed_len_str_to_bytes_partial_long)
  have p6: "length (take len (drop (pos s) (data s))) = min len (length (data s) - pos s)"
    by simp
  show ?thesis
    by (intro conjI p1 p2 p3 p4 p6 fixed_len_str_from_bytes_partial_eq)
qed

theorem fixed_len_str_codec_witness:
  "fixed_len_str_to_bytes_partial 8 UTF_8 True (PStr [104, 105]) \<lparr>data = [], pos = 0, TAG_TYPE = None\<rparr>
       = (Inr (), \<lparr>data = [104, 105, 0, 0, 0, 0, 0, 0], pos = 8, TAG_TYPE = None\<rparr>)
   \<and> fixed_len_str_from_bytes_partial 8 UTF_8 True
         \<lparr>data = [104, 105, 0, 0, 0, 0, 0, 0], pos = 0, TAG_TYPE = None\<rparr>
       = (Inr (PStr [104, 105]), \<lparr>data = [104, 105, 0, 0, 0, 0, 0, 0], pos = 8, TAG_TYPE = None\<rparr>)
   \<and> (\<exists>e. fixed_len_str_to_bytes_partial 8 UTF_8 True (PStr [97, 98, 99, 100, 101, 102, 103, 104, 105])
              \<lparr>data = [], pos = 0, TAG_TYPE = None\<rparr> = (Inl e, \<lparr>data = [], pos = 0, TAG_TYPE = None\<rparr>))
   \<and> fixed_len_str_to_bytes_partial 8 UTF_8 False (PStr [104, 105]) \<lparr>data = [], pos = 0, TAG_TYPE = None\<rparr>
       = (Inl (ValueError ''len(value) < size''), \<lparr>data = [], pos = 0, TAG_TYPE = None\<rparr>)
   \<and> fixed_len_str_to_bytes_partial 1 UTF_8 True (PStr [104, 105]) \<lparr>data = [], pos = 0, TAG_TYPE = None\<rparr>
       = (Inl (ValueError ''len(value) > length''), \<lparr>data = [], pos = 0, TAG_TYPE = None\<rparr>)"
proof -
  let ?s = "\<lparr>data = [], pos = 0, TAG_TYPE = None\<rparr>"
  let ?hi = "[104, 105] :: byte list"
  note pad = fixed_len_str_codec [of UTF_8 "[104, 105]" ?hi 8 True ?s,
      THEN conjunct2, THEN conjunct2, THEN conjunct1, rule_format]
  have a: "fixed_len_str_to_bytes_partial 8 UTF_8 True (PStr [104, 105]) ?s
       = (Inr (), \<lparr>data = [104, 105, 0, 0, 0, 0, 0, 0], pos = 8, TAG_TYPE = None\<rparr>)"
    using pad by (simp add: py_encode_hi buffer_write_def rep6)
  note rd = fixed_len_str_codec [of UTF_8 "[]" "[]" 8 True
      "\<lparr>data = [104, 105, 0, 0, 0, 0, 0, 0], pos = 0, TAG_TYPE = None\<rparr>",
      THEN conjunct2, THEN conjunct2, THEN conjunct2, THEN conjunct2, THEN conjunct1]
  have b: "fixed_len_str_from_bytes_partial 8 UTF_8 True
         \<lparr>data = [104, 105, 0, 0, 0, 0, 0, 0], pos = 0, TAG_TYPE = None\<rparr>
       = (Inr (PStr [104, 105]), \<lparr>data = [104, 105, 0, 0, 0, 0, 0, 0], pos = 8, TAG_TYPE = None\<rparr>)"
    by (simp add: rd py_decode_hi)
  note long = fixed_len_str_codec [of UTF_8 "[97, 98, 99, 100, 101, 102, 103, 104, 105]" "[]" 8 True ?s,
      THEN conjunct2, THEN conjunct2, THEN conjunct2, THEN conjunct1, rule_format]
  have c: "\<exists>e. fixed_len_str_to_bytes_partial 8 UTF_8 True (PStr [97, 98, 99, 100, 101, 102, 103, 104, 105])
              ?s = (Inl e, ?s)"
    by (rule long) simp
  note short = fixed_len_str_codec [of UTF_8 "[104, 105]" ?hi 8 False ?s,
      THEN conjunct2, THEN conjunct1, rule_format]
  have d: "fixed_len_str_to_bytes_partial 8 UTF_8 False (PStr [104, 105]) ?s
       = (Inl (ValueError ''len(value) < size''), ?s)"
    by (rule short) (simp add: py_encode_hi)
  note over = fixed_len_str_codec [of UTF_8 "[104, 105]" ?hi 1 True ?s, THEN conjunct1, rule_format]
  have e: "fixed_len_str_to_bytes_partial 1 UTF_8 True (PStr [104, 105]) ?s
       = (Inl (ValueError ''len(value) > length''), ?s)"
    by (rule over) (simp add: py_encode_hi)
  from a b c d e show ?thesis by blast
qed

subsection \<open>Variable-length containers\<close>

lemma auto_format_data_TAG:
  "auto_format t format s = (r, s') \<Longrightarrow> data s' = data s \<and> TAG_TYPE s' = TAG_TYPE s"
  by (auto simp: auto_format_def Let_def split: if_splits sum.splits)

lemma unpack_partial_container:
  assumes "is_container t"
  shows "\<exists>e s'. unpack_partial t format s = (Inl e, s')"
proof (cases "auto_format t format s")
  case (Pair r s1)
  show ?thesis
  proof (cases r)
    case (Inl e)
    with Pair assms show ?thesis
      by (simp add: unpack_partial.simps get_converter_container)
  next
    case (Inr f)
    with Pair assms show ?thesis
      by (cases f)
         (simp_all add: unpack_partial.simps get_converter_container converter_unpack_partial_container)
  qed
qed

lemma unpack_partial_U32_3:
  "unpack_partial (Atomic U32) FORMAT_AUTO \<lparr>data = [3, 0, 0, 0, 7, 8, 9], pos = 0, TAG_TYPE = None\<rparr>
     = (Inr (PInt 3), \<lparr>data = [3, 0, 0, 0, 7, 8, 9], pos = 4, TAG_TYPE = None\<rparr>)"
  by (simp add: unpack_partial.simps auto_format_def atomic_unpack_partial_def buffer_read_def)

text \<open>
  C7 (bounds rejection). The pack steps \<^verbatim>\<open>_to_bytes_partial(obj, buffer)\<close> of the variable
  array, bytes and string classes raise \<^verbatim>\<open>RuntimeError\<close> on a value whose length exceeds
  \<^verbatim>\<open>max_length\<close> and leave the buffer as it was; their unpack steps, once the length
  prefix has been read and exceeds \<^verbatim>\<open>max_length\<close>, raise the same error with the cursor
  just behind the prefix, so no element or body byte is read. Packing such a type through
  the catalog raises before anything is written whatever the value is, and unpacking it
  through the catalog raises as well.
\<close>

theorem var_len_bounds_rejection:
  "(py_len obj = Inr n \<and> max_length < n \<longrightarrow>
      var_len_array_to_bytes_partial etype max_length length_type obj s = (Inl length_error, s)
      \<and> var_len_bytes_to_bytes_partial max_length length_type obj s = (Inl length_error, s)
      \<and> var_len_str_to_bytes_partial max_length length_type enc obj s = (Inl length_error, s))
   \<and> (unpack_partial length_type FORMAT_AUTO s = (Inr (PInt k), s') \<and> int max_length < k \<longrightarrow>
      var_len_array_from_bytes_partial etype max_length length_type s = (Inl length_error, s')
      \<and> var_len_bytes_from_bytes_partial max_length length_type s = (Inl length_error, s')
      \<and> var_len_str_from_bytes_partial max_length length_type enc s = (Inl length_error, s'))
   \<and> (\<exists>e. pack_partial (Vec etype max_length length_type) obj format s = (Inl e, s))
   \<and> (\<exists>e. pack_partial (Bytes max_length length_type) obj format s = (Inl e, s))
   \<and> (\<exists>e. pack_partial (Str max_length length_type enc) obj format s = (Inl e, s))
   \<and> (\<exists>e s''. unpack_partial (Vec etype max_length length_type) format s = (Inl e, s''))
   \<and> (\<exists>e s''. unpack_partial (Bytes max_length length_type) format s = (Inl e, s''))
   \<and> (\<exists>e s''. unpack_partial (Str max_length length_type enc) format s = (Inl e, s''))"
proof -
  have p1: "py_len obj = Inr n \<and> max_length < n \<longrightarrow>
      var_len_array_to_bytes_partial etype max_length length_type obj s = (Inl length_error, s)
      \<and> var_len_bytes_to_bytes_partial max_length length_type obj s = (Inl length_error, s)
      \<and> var_len_str_to_bytes_partial max_length length_type enc obj s = (Inl length_error, s)"
    by (simp add: var_len_array_to_bytes_partial_def var_len_bytes_to_bytes_partial_def
        var_len_str_to_bytes_partial_def)
  have p2: "unpack_partial length_type FORMAT_AUTO s = (Inr (PInt k), s') \<and> int max_length < k \<longrightarrow>
      var_len_array_from_bytes_partial etype max_length length_type s = (Inl length_error, s')
      \<and> var_len_bytes_from_bytes_partial max_length length_type s = (Inl length_error, s')
      \<and> var_len_str_from_bytes_partial max_length length_type enc s = (Inl length_error, s')"
    by (simp add: var_len_array_from_bytes_partial_def var_len_bytes_from_bytes_partial_def
        var_len_str_from_bytes_partial_def)
  show ?thesis
    by (intro conjI p1 p2 pack_partial_container unpack_partial_container) simp_all
qed

theorem var_len_bounds_rejection_witness:
  "py_len (PList [PInt 7, PInt 8, PInt 9]) = Inr 3 \<and> (2::nat) < 3
   \<and> var_len_array_to_bytes_partial (Atomic U8) 2 (Atomic U32) (PList [PInt 7, PInt 8, PInt 9])
        \<lparr>data = [], pos = 0, TAG_TYPE = None\<rparr>
       = (Inl length_error, \<lparr>data = [], pos = 0, TAG_TYPE = None\<rparr>)
   \<and> unpack_partial (Atomic U32) FORMAT_AUTO \<lparr>data = [3, 0, 0, 0, 7, 8, 9], pos = 0, TAG_TYPE = None\<rparr>
       = (Inr (PInt 3), \<lparr>data = [3, 0, 0, 0, 7, 8, 9], pos = 4, TAG_TYPE = None\<rparr>)
   \<and> int 2 < 3
   \<and> var_len_array_from_bytes_partial (Atomic U8) 2 (Atomic U32)
        \<lparr>data = [3, 0, 0, 0, 7, 8, 9], pos = 0, TAG_TYPE = None\<rparr>
       = (Inl length_error, \<lparr>data = [3, 0, 0, 0, 7, 8, 9], pos = 4, TAG_TYPE = None\<rparr>)"
proof -
  note t = var_len_bounds_rejection [of "PList [PInt 7, PInt 8, PInt 9]" 3 2 "Atomic U8" "Atomic U32"
      "\<lparr>data = [], pos = 0, TAG_TYPE = None\<rparr>" UTF_8 3
      "\<lparr>data = [], pos = 0, TAG_TYPE = None\<rparr>" FORMAT_BORSCH]
  note u = var_len_bounds_rejection [of "PNone" 0 2 "Atomic U8" "Atomic U32"
      "\<lparr>data = [3, 0, 0, 0, 7, 8, 9], pos = 0, TAG_TYPE = None\<rparr>" UTF_8 3
      "\<lparr>data = [3, 0, 0, 0, 7, 8, 9], pos = 4, TAG_TYPE = None\<rparr>" FORMAT_BORSCH]
  have a: "var_len_array_to_bytes_partial (Atomic U8) 2 (Atomic U32) (PList [PInt 7, PInt 8, PInt 9])
        \<lparr>data = [], pos = 0, TAG_TYPE = None\<rparr>
       = (Inl length_error, \<lparr>data = [], pos = 0, TAG_TYPE = None\<rparr>)"
    using t [THEN conjunct1] by simp
  have b: "var_len_array_from_bytes_partial (Atomic U8) 2 (Atomic U32)
        \<lparr>data = [3, 0, 0, 0, 7, 8, 9], pos = 0, TAG_TYPE = None\<rparr>
       = (Inl length_error, \<lparr>data = [3, 0, 0, 0, 7, 8, 9], pos = 4, TAG_TYPE = None\<rparr>)"
    using u [THEN conjunct2, THEN conjunct1] unpack_partial_U32_3 by simp
  from a b unpack_partial_U32_3 show ?thesis by simp
qed

subsection \<open>The tag slot\<close>

lemma atomic_pack_partial_TAG_TYPE:
  "TAG_TYPE (snd (atomic_pack_partial a obj s)) = TAG_TYPE s"
  by (simp add: atomic_pack_partial_def buffer_write_TAG_TYPE split: pyval.splits)

lemma atomic_unpack_partial_TAG_TYPE:
  "TAG_TYPE (snd (atomic_unpack_partial a s)) = TAG_TYPE s"
  by (simp add: atomic_unpack_partial_def buffer_read_def Let_def)

lemma pack_partial_TAG_TYPE:
  "TAG_TYPE (snd (pack_partial t obj format s)) = TAG_TYPE s"
  "TAG_TYPE (snd (converter_pack_partial t obj format s)) = TAG_TYPE s"
  "TAG_TYPE (snd (dataclass_to_bytes_partial cls flds obj format s)) = TAG_TYPE s"
proof (induction t obj format s and t obj format s and cls flds obj format s
    rule: pack_partial_converter_pack_partial_dataclass_to_bytes_partial.induct)
  case (1 t obj format s)
  show ?case
  proof (cases "get_converter_or_raise t ''No converter was able to pack raw data''")
    case (Inl e)
    then show ?thesis by (simp add: pack_partial.simps)
  next
    case (Inr converter)
    show ?thesis
    proof (cases format)
      case FORMAT_PASS
      with Inr "1.IH"(2) show ?thesis by (simp add: pack_partial.simps)
    qed (simp_all add: pack_partial.simps Inr split: prod.splits)
  qed
next
  case (13 cls fld flds obj format s)
  show ?case
  proof (cases "getattr_obj obj (fst fld)")
    case (Inl e)
    then show ?thesis by simp
  next
    case (Inr v)
    obtain r s' where p: "pack_partial (snd fld) v format s = (r, s')"
      by (cases "pack_partial (snd fld) v format s")
    from "13.IH"(1) [OF Inr] p have s': "TAG_TYPE s' = TAG_TYPE s" by simp
    show ?thesis
    proof (cases r)
      case (Inl e)
      with Inr p s' show ?thesis by simp
    next
      case (Inr u)
      with \<open>getattr_obj obj (fst fld) = Inr v\<close> p s' "13.IH"(2) show ?thesis by simp
    qed
  qed
qed (simp_all add: atomic_pack_partial_TAG_TYPE split: option.splits)


lemma unpack_partial_TAG_TYPE:
  "TAG_TYPE (snd (unpack_partial t format s)) = TAG_TYPE s"
  "TAG_TYPE (snd (converter_unpack_partial t format s)) = TAG_TYPE s"
  "TAG_TYPE (snd (dataclass_from_bytes_partial cls flds values format s)) = TAG_TYPE s"
proof (induction t format s and t format s and cls flds "values" format s
    rule: unpack_partial_converter_unpack_partial_dataclass_from_bytes_partial.induct)
  case (1 t format s)
  show ?case
  proof (cases "get_converter_or_raise t ''No converter was able to unpack object''")
    case (Inl e)
    then show ?thesis by (simp add: unpack_partial.simps)
  next
    case (Inr converter)
    obtain r s1 where a: "auto_format t format s = (r, s1)"
      by (cases "auto_format t format s")
    from auto_format_data_TAG [OF a] have s1: "TAG_TYPE s1 = TAG_TYPE s" by simp
    show ?thesis
    proof (cases r)
      case (Inl e)
      with Inr a s1 show ?thesis by (simp add: unpack_partial.simps)
    next
      case f: (Inr format')
      show ?thesis
      proof (cases format')
        case FORMAT_PASS
        with Inr a f s1 "1.IH"(2) [OF Inr a [symmetric, unfolded f] refl FORMAT_PASS]
        show ?thesis by (simp add: unpack_partial.simps)
      qed (simp_all add: unpack_partial.simps Inr a f s1 split: prod.splits)
    qed
  qed
next
  case (13 cls fld flds vals format s)
  obtain r s' where p: "unpack_partial (snd fld) format s = (r, s')"
    by (cases "unpack_partial (snd fld) format s")
  from "13.IH"(1) p have s': "TAG_TYPE s' = TAG_TYPE s" by simp
  show ?case
  proof (cases r)
    case (Inl e)
    with p s' show ?thesis by simp
  next
    case (Inr v)
    with p s' "13.IH"(2) show ?thesis by simp
  qed
qed (simp_all add: atomic_unpack_partial_TAG_TYPE split: option.splits)

lemma le_bytes_numeral:
  "le_bytes (numeral k) n = of_nat (n mod 256) # le_bytes (pred_numeral k) (n div 256)"
  by (simp only: numeral_eq_Suc [of k] le_bytes.simps)

lemma le_bytes_5: "le_bytes 8 5 = [5, 0, 0, 0, 0, 0, 0, 0]" "le_bytes 1 5 = [5]"
  by (simp_all add: le_bytes_numeral)

text \<open>
  C6 (stack discipline of the tag context). Whatever the type, the value, the format and
  the outcome, the tag slot after \<^verbatim>\<open>pack_partial\<close>, \<^verbatim>\<open>unpack_partial\<close>, \<^verbatim>\<open>pack\<close> and \<^verbatim>\<open>unpack\<close>
  holds the value it held before the call. For the canonical and the zero-copy format
  the converter's step runs with \<^verbatim>\<open>U8\<close> and \<^verbatim>\<open>U64\<close> in the slot, and the value saved on
  entry is put back into the state the step ends in, be its result a value or an
  exception.
\<close>

theorem tag_context_restored:
  "TAG_TYPE (snd (pack_partial t obj format s)) = TAG_TYPE s
   \<and> TAG_TYPE (snd (unpack_partial t format s)) = TAG_TYPE s
   \<and> snd (pack t obj format tag) = tag
   \<and> snd (unpack t raw checked format tag) = tag
   \<and> (get_converter_or_raise t ''No converter was able to pack raw data'' = Inr converter \<longrightarrow>
       pack_partial t obj FORMAT_BORSCH s =
         (case converter_pack_partial t obj FORMAT_BORSCH (s\<lparr>TAG_TYPE := Some U8\<rparr>) of
            (r, s') \<Rightarrow> (r, s'\<lparr>TAG_TYPE := TAG_TYPE s\<rparr>))
       \<and> pack_partial t obj FORMAT_ZERO_COPY s =
         (case converter_pack_partial t obj FORMAT_ZERO_COPY (s\<lparr>TAG_TYPE := Some U64\<rparr>) of
            (r, s') \<Rightarrow> (r, s'\<lparr>TAG_TYPE := TAG_TYPE s\<rparr>)))
   \<and> (get_converter_or_raise t ''No converter was able to unpack object'' = Inr converter \<longrightarrow>
       unpack_partial t FORMAT_BORSCH s =
         (case converter_unpack_partial t FORMAT_BORSCH (s\<lparr>TAG_TYPE := Some U8\<rparr>) of
            (r, s') \<Rightarrow> (r, s'\<lparr>TAG_TYPE := TAG_TYPE s\<rparr>))
       \<and> unpack_partial t FORMAT_ZERO_COPY s =
         (case converter_unpack_partial t FORMAT_ZERO_COPY (s\<lparr>TAG_TYPE := Some U64\<rparr>) of
            (r, s') \<Rightarrow> (r, s'\<lparr>TAG_TYPE := TAG_TYPE s\<rparr>)))"
proof -
  have p3: "snd (pack t obj format tag) = tag"
  proof -
    obtain r s' where e: "pack_partial t obj format \<lparr>data = [], pos = 0, TAG_TYPE = tag\<rparr> = (r, s')"
      by (cases "pack_partial t obj format \<lparr>data = [], pos = 0, TAG_TYPE = tag\<rparr>")
    with pack_partial_TAG_TYPE(1) [of t obj format "\<lparr>data = [], pos = 0, TAG_TYPE = tag\<rparr>"]
    have "TAG_TYPE s' = tag" by simp
    with e show ?thesis by (cases r) (simp_all add: pack_def)
  qed
  have p4: "snd (unpack t raw checked format tag) = tag"
  proof -
    obtain r s' where e: "unpack_partial t format \<lparr>data = raw, pos = 0, TAG_TYPE = tag\<rparr> = (r, s')"
      by (cases "unpack_partial t format \<lparr>data = raw, pos = 0, TAG_TYPE = tag\<rparr>")
    with unpack_partial_TAG_TYPE(1) [of t format "\<lparr>data = raw, pos = 0, TAG_TYPE = tag\<rparr>"]
    have "TAG_TYPE s' = tag" by simp
    with e show ?thesis by (cases r) (simp_all add: unpack_def)
  qed
  have p5: "get_converter_or_raise t ''No converter was able to pack raw data'' = Inr converter \<longrightarrow>
       pack_partial t obj FORMAT_BORSCH s =
         (case converter_pack_partial t obj FORMAT_BORSCH (s\<lparr>TAG_TYPE := Some U8\<rparr>) of
            (r, s') \<Rightarrow> (r, s'\<lparr>TAG_TYPE := TAG_TYPE s\<rparr>))
       \<and> pack_partial t obj FORMAT_ZERO_COPY s =
         (case converter_pack_partial t obj FORMAT_ZERO_COPY (s\<lparr>TAG_TYPE := Some U64\<rparr>) of
            (r, s') \<Rightarrow> (r, s'\<lparr>TAG_TYPE := TAG_TYPE s\<rparr>))"
    by (simp add: pack_partial.simps)
  have p6: "get_converter_or_raise t ''No converter was able to unpack object'' = Inr converter \<longrightarrow>
       unpack_partial t FORMAT_BORSCH s =
         (case converter_unpack_partial t FORMAT_BORSCH (s\<lparr>TAG_TYPE := Some U8\<rparr>) of
            (r, s') \<Rightarrow> (r, s'\<lparr>TAG_TYPE := TAG_TYPE s\<rparr>))
       \<and> unpack_partial t FORMAT_ZERO_COPY s =
         (case converter_unpack_partial t FORMAT_ZERO_COPY (s\<lparr>TAG_TYPE := Some U64\<rparr>) of
            (r, s') \<Rightarrow> (r, s'\<lparr>TAG_TYPE := TAG_TYPE s\<rparr>))"
    by (simp add: unpack_partial.simps auto_format_def)
  show ?thesis
    by (intro conjI p3 p4 p5 p6 pack_partial_TAG_TYPE(1) unpack_partial_TAG_TYPE(1))
qed

theorem tag_context_restored_witness:
  "get_converter_or_raise AutoTagType ''No converter was able to pack raw data'' = Inr SelfBytesPodConverter
   \<and> pack_partial AutoTagType (PInt 5) FORMAT_ZERO_COPY \<lparr>data = [], pos = 0, TAG_TYPE = None\<rparr>
       = (Inr (), \<lparr>data = [5, 0, 0, 0, 0, 0, 0, 0], pos = 8, TAG_TYPE = None\<rparr>)
   \<and> pack_partial AutoTagType (PInt 5) FORMAT_BORSCH \<lparr>data = [], pos = 0, TAG_TYPE = Some U64\<rparr>
       = (Inr (), \<lparr>data = [5], pos = 1, TAG_TYPE = Some U64\<rparr>)
   \<and> get_converter_or_raise AutoTagType ''No converter was able to unpack object'' = Inr SelfBytesPodConverter
   \<and> unpack_partial AutoTagType FORMAT_BORSCH \<lparr>data = [5, 6], pos = 0, TAG_TYPE = None\<rparr>
       = (Inr (PInt 5), \<lparr>data = [5, 6], pos = 1, TAG_TYPE = None\<rparr>)"
proof -
  note p = tag_context_restored [of AutoTagType "PInt 5" FORMAT_PASS
      "\<lparr>data = [], pos = 0, TAG_TYPE = None\<rparr>" None "[]" False SelfBytesPodConverter,
      THEN conjunct2, THEN conjunct2, THEN conjunct2, THEN conjunct2, THEN conjunct1, rule_format]
  note q = tag_context_restored [of AutoTagType "PInt 5" FORMAT_PASS
      "\<lparr>data = [], pos = 0, TAG_TYPE = Some U64\<rparr>" None "[]" False SelfBytesPodConverter,
      THEN conjunct2, THEN conjunct2, THEN conjunct2, THEN conjunct2, THEN conjunct1, rule_format]
  note u = tag_context_restored [of AutoTagType "PInt 5" FORMAT_PASS
      "\<lparr>data = [5, 6], pos = 0, TAG_TYPE = None\<rparr>" None "[]" False SelfBytesPodConverter,
      THEN conjunct2, THEN conjunct2, THEN conjunct2, THEN conjunct2, THEN conjunct2, rule_format]
  have c: "get_converter_or_raise AutoTagType msg = Inr SelfBytesPodConverter" for msg
    by simp
  have a: "pack_partial AutoTagType (PInt 5) FORMAT_ZERO_COPY \<lparr>data = [], pos = 0, TAG_TYPE = None\<rparr>
       = (Inr (), \<lparr>data = [5, 0, 0, 0, 0, 0, 0, 0], pos = 8, TAG_TYPE = None\<rparr>)"
    using p [OF c, THEN conjunct2]
    by (simp add: pack_partial.simps atomic_pack_partial_def buffer_write_def le_bytes_5)
  have b: "pack_partial AutoTagType (PInt 5) FORMAT_BORSCH \<lparr>data = [], pos = 0, TAG_TYPE = Some U64\<rparr>
       = (Inr (), \<lparr>data = [5], pos = 1, TAG_TYPE = Some U64\<rparr>)"
    using q [OF c, THEN conjunct1]
    by (simp add: pack_partial.simps atomic_pack_partial_def buffer_write_def le_bytes_5)
  have d: "unpack_partial AutoTagType FORMAT_BORSCH \<lparr>data = [5, 6], pos = 0, TAG_TYPE = None\<rparr>
       = (Inr (PInt 5), \<lparr>data = [5, 6], pos = 1, TAG_TYPE = None\<rparr>)"
    using u [OF c, THEN conjunct1]
    by (simp add: unpack_partial.simps auto_format_def atomic_unpack_partial_def buffer_read_def)
  from a b c d show ?thesis by simp
qed

subsection \<open>The dataclass codec\<close>

lemma error_path_enrich:
  "error_path (enrich msg name cls ftype v e) = error_path e @ [name, cls]"
  by (cases e) simp_all

lemma is_path_error_enrich:
  "is_path_error (enrich msg name cls ftype v e)"
  by (cases e) simp_all

lemma dataclass_to_bytes_partial_Inl:
  "dataclass_to_bytes_partial cls flds obj format s = (Inl e, s') \<Longrightarrow>
   is_path_error e \<and> (\<exists>fld \<in> set flds. \<exists>p. error_path e = p @ [fst fld, cls])"
proof (induction flds arbitrary: s)
  case Nil
  then show ?case by simp
next
  case (Cons fld flds)
  show ?case
  proof (cases "getattr_obj obj (fst fld)")
    case (Inl e0)
    with Cons.prems have "e = enrich ''Failed to serialize dataclass'' (fst fld) cls (snd fld) (Some PNone) e0"
      by simp
    then show ?thesis
      by (auto simp: is_path_error_enrich error_path_enrich)
  next
    case (Inr v)
    obtain r s1 where p: "pack_partial (snd fld) v format s = (r, s1)"
      by (cases "pack_partial (snd fld) v format s")
    show ?thesis
    proof (cases r)
      case (Inl e0)
      with Inr p Cons.prems
      have "e = enrich ''Failed to serialize dataclass'' (fst fld) cls (snd fld) (Some v) e0"
        by simp
      then show ?thesis
        by (auto simp: is_path_error_enrich error_path_enrich)
    next
      case r: (Inr u)
      with Inr p Cons.prems have "dataclass_to_bytes_partial cls flds obj format s1 = (Inl e, s')"
        by simp
      from Cons.IH [OF this] show ?thesis by auto
    qed
  qed
qed

lemma dataclass_from_bytes_partial_Inl:
  "dataclass_from_bytes_partial cls flds vals format s = (Inl e, s') \<Longrightarrow>
   is_path_error e \<and> (\<exists>fld \<in> set flds. \<exists>p. error_path e = p @ [fst fld, cls])"
proof (induction flds arbitrary: s vals)
  case Nil
  then show ?case by simp
next
  case (Cons fld flds)
  obtain r s1 where p: "unpack_partial (snd fld) format s = (r, s1)"
    by (cases "unpack_partial (snd fld) format s")
  show ?case
  proof (cases r)
    case (Inl e0)
    with p Cons.prems
    have "e = enrich ''Failed to deserialize dataclass'' (fst fld) cls (snd fld) None e0"
      by simp
    then show ?thesis
      by (auto simp: is_path_error_enrich error_path_enrich)
  next
    case r: (Inr v)
    with p Cons.prems
    have "dataclass_from_bytes_partial cls flds (AList.update (fst fld) v vals) format s1 = (Inl e, s')"
      by simp
    from Cons.IH [OF this] show ?thesis by auto
  qed
qed

lemma dataclass_to_bytes_partial_Inr:
  "dataclass_to_bytes_partial cls flds obj format s = (Inr u, s') \<Longrightarrow>
   \<forall>fld \<in> set flds. \<exists>v s1 s2. getattr_obj obj (fst fld) = Inr v
       \<and> pack_partial (snd fld) v format s1 = (Inr (), s2)"
proof (induction flds arbitrary: s)
  case Nil
  then show ?case by simp
next
  case (Cons fld flds)
  from Cons.prems obtain v where g: "getattr_obj obj (fst fld) = Inr v"
    by (cases "getattr_obj obj (fst fld)") simp_all
  obtain r s1 where p: "pack_partial (snd fld) v format s = (r, s1)"
    by (cases "pack_partial (snd fld) v format s")
  from Cons.prems g p have r: "r = Inr ()"
    and rest: "dataclass_to_bytes_partial cls flds obj format s1 = (Inr u, s')"
    by (cases r; simp)+
  from Cons.IH [OF rest] g p r show ?case by auto
qed

lemma dataclass_from_bytes_partial_Inr:
  "dataclass_from_bytes_partial cls flds vals format s = (Inr r, s') \<Longrightarrow>
   (\<exists>vals'. r = PObj cls vals')
   \<and> (\<forall>fld \<in> set flds. \<exists>v s1 s2. unpack_partial (snd fld) format s1 = (Inr v, s2))"
proof (induction flds arbitrary: s vals)
  case Nil
  then show ?case by auto
next
  case (Cons fld flds)
  obtain q s1 where p: "unpack_partial (snd fld) format s = (q, s1)"
    by (cases "unpack_partial (snd fld) format s")
  from Cons.prems p obtain v where q: "q = Inr v"
    and rest: "dataclass_from_bytes_partial cls flds (AList.update (fst fld) v vals) format s1 = (Inr r, s')"
    by (cases q) simp_all
  from Cons.IH [OF rest] p q show ?case by auto
qed

lemma pack_inner_missing:
  "pack_partial (Dataclass ''Inner'' [(''a'', Atomic U8)]) (PObj ''Inner'' []) FORMAT_BORSCH
      \<lparr>data = [], pos = 0, TAG_TYPE = None\<rparr>
   = (Inl (PodPathError ''Failed to serialize dataclass'' [''a'', ''Inner''] (Atomic U8) (Some PNone)
        (AttributeError ''a'')), \<lparr>data = [], pos = 0, TAG_TYPE = None\<rparr>)"
  by (simp add: pack_partial.simps)

lemma unpack_inner_empty:
  "unpack_partial (Dataclass ''Inner'' [(''a'', Atomic U8)]) FORMAT_BORSCH
      \<lparr>data = [], pos = 0, TAG_TYPE = None\<rparr>
   = (Inl (PodPathError ''Failed to deserialize dataclass'' [''a'', ''Inner''] (Atomic U8) None
        AtomicError), \<lparr>data = [], pos = 0, TAG_TYPE = None\<rparr>)"
  by (simp add: unpack_partial.simps auto_format_def atomic_unpack_partial_def buffer_read_def)

lemma pack_inner_5:
  "dataclass_to_bytes_partial ''Inner'' [(''a'', Atomic U8)] (PObj ''Inner'' [(''a'', PInt 5)])
      FORMAT_BORSCH \<lparr>data = [], pos = 0, TAG_TYPE = Some U8\<rparr>
   = (Inr (), \<lparr>data = [5], pos = 1, TAG_TYPE = Some U8\<rparr>)"
  by (simp add: pack_partial.simps atomic_pack_partial_def buffer_write_def)

lemma unpack_inner_5:
  "dataclass_from_bytes_partial ''Inner'' [(''a'', Atomic U8)] [] FORMAT_BORSCH
      \<lparr>data = [5], pos = 0, TAG_TYPE = Some U8\<rparr>
   = (Inr (PObj ''Inner'' [(''a'', PInt 5)]), \<lparr>data = [5], pos = 1, TAG_TYPE = Some U8\<rparr>)"
  by (simp add: unpack_partial.simps auto_format_def atomic_unpack_partial_def buffer_read_def)

lemma loop_inner_missing:
  "dataclass_to_bytes_partial ''Inner'' [(''a'', Atomic U8)] (PObj ''Inner'' []) FORMAT_BORSCH
      \<lparr>data = [], pos = 0, TAG_TYPE = None\<rparr>
   = (Inl (PodPathError ''Failed to serialize dataclass'' [''a'', ''Inner''] (Atomic U8) (Some PNone)
        (AttributeError ''a'')), \<lparr>data = [], pos = 0, TAG_TYPE = None\<rparr>)"
  by simp

lemma loop_inner_empty:
  "dataclass_from_bytes_partial ''Inner'' [(''a'', Atomic U8)] [] FORMAT_BORSCH
      \<lparr>data = [], pos = 0, TAG_TYPE = None\<rparr>
   = (Inl (PodPathError ''Failed to deserialize dataclass'' [''a'', ''Inner''] (Atomic U8) None
        AtomicError), \<lparr>data = [], pos = 0, TAG_TYPE = None\<rparr>)"
  by (simp add: unpack_partial.simps auto_format_def atomic_unpack_partial_def buffer_read_def)

text \<open>
  C8 (path-error enrichment). When the loop of the dataclass codec reaches a field and
  reading its attribute, packing it or unpacking it raises \<open>e\<close>, the codec raises a
  \<^verbatim>\<open>PodPathError\<close> whose path is the path of \<open>e\<close> (empty unless \<open>e\<close> is itself a
  \<^verbatim>\<open>PodPathError\<close>) followed by the field name and the class name, in the state the
  failing step left. Every failure of the codec is such an error, ending in a field of
  the class and the class name. A successful pack has packed every field, and a record
  is returned from unpacking only when every field was unpacked.
\<close>

theorem path_error_enrichment:
  "(getattr_obj obj (fst fld) = Inl e \<longrightarrow>
      (\<exists>e'. dataclass_to_bytes_partial cls (fld # flds) obj format s = (Inl e', s)
            \<and> is_path_error e' \<and> error_path e' = error_path e @ [fst fld, cls]))
   \<and> (getattr_obj obj (fst fld) = Inr v \<and> pack_partial (snd fld) v format s = (Inl e, s') \<longrightarrow>
      (\<exists>e'. dataclass_to_bytes_partial cls (fld # flds) obj format s = (Inl e', s')
            \<and> is_path_error e' \<and> error_path e' = error_path e @ [fst fld, cls]))
   \<and> (unpack_partial (snd fld) format s = (Inl e, s') \<longrightarrow>
      (\<exists>e'. dataclass_from_bytes_partial cls (fld # flds) vals format s = (Inl e', s')
            \<and> is_path_error e' \<and> error_path e' = error_path e @ [fst fld, cls]))
   \<and> (dataclass_to_bytes_partial cls flds obj format s = (Inl e, s') \<longrightarrow>
      is_path_error e \<and> (\<exists>f \<in> set flds. \<exists>p. error_path e = p @ [fst f, cls]))
   \<and> (dataclass_from_bytes_partial cls flds vals format s = (Inl e, s') \<longrightarrow>
      is_path_error e \<and> (\<exists>f \<in> set flds. \<exists>p. error_path e = p @ [fst f, cls]))
   \<and> (dataclass_to_bytes_partial cls flds obj format s = (Inr u, s') \<longrightarrow>
      (\<forall>f \<in> set flds. \<exists>w s1 s2. getattr_obj obj (fst f) = Inr w
          \<and> pack_partial (snd f) w format s1 = (Inr (), s2)))
   \<and> (dataclass_from_bytes_partial cls flds vals format s = (Inr r, s') \<longrightarrow>
      (\<exists>vals'. r = PObj cls vals')
      \<and> (\<forall>f \<in> set flds. \<exists>w s1 s2. unpack_partial (snd f) format s1 = (Inr w, s2)))"
proof -
  have p1: "getattr_obj obj (fst fld) = Inl e \<longrightarrow>
      (\<exists>e'. dataclass_to_bytes_partial cls (fld # flds) obj format s = (Inl e', s)
            \<and> is_path_error e' \<and> error_path e' = error_path e @ [fst fld, cls])"
    by (simp add: is_path_error_enrich error_path_enrich)
  have p2: "getattr_obj obj (fst fld) = Inr v \<and> pack_partial (snd fld) v format s = (Inl e, s') \<longrightarrow>
      (\<exists>e'. dataclass_to_bytes_partial cls (fld # flds) obj format s = (Inl e', s')
            \<and> is_path_error e' \<and> error_path e' = error_path e @ [fst fld, cls])"
    by (simp add: is_path_error_enrich error_path_enrich)
  have p3: "unpack_partial (snd fld) format s = (Inl e, s') \<longrightarrow>
      (\<exists>e'. dataclass_from_bytes_partial cls (fld # flds) vals format s = (Inl e', s')
            \<and> is_path_error e' \<and> error_path e' = error_path e @ [fst fld, cls])"
    by (simp add: is_path_error_enrich error_path_enrich)
  have p4: "dataclass_to_bytes_partial cls flds obj format s = (Inl e, s') \<longrightarrow>
      is_path_error e \<and> (\<exists>f \<in> set flds. \<exists>p. error_path e = p @ [fst f, cls])"
    by (rule impI) (rule dataclass_to_bytes_partial_Inl)
  have p5: "dataclass_from_bytes_partial cls flds vals format s = (Inl e, s') \<longrightarrow>
      is_path_error e \<and> (\<exists>f \<in> set flds. \<exists>p. error_path e = p @ [fst f, cls])"
    by (rule impI) (rule dataclass_from_bytes_partial_Inl)
  have p6: "dataclass_to_bytes_partial cls flds obj format s = (Inr u, s') \<longrightarrow>
      (\<forall>f \<in> set flds. \<exists>w s1 s2. getattr_obj obj (fst f) = Inr w
          \<and> pack_partial (snd f) w format s1 = (Inr (), s2))"
    by (rule impI) (rule dataclass_to_bytes_partial_Inr)
  have p7: "dataclass_from_bytes_partial cls flds vals format s = (Inr r, s') \<longrightarrow>
      (\<exists>vals'. r = PObj cls vals')
      \<and> (\<forall>f \<in> set flds. \<exists>w s1 s2. unpack_partial (snd f) format s1 = (Inr w, s2))"
    by (rule impI) (rule dataclass_from_bytes_partial_Inr)
  show ?thesis
    by (intro conjI p1 p2 p3 p4 p5 p6 p7)
qed

theorem path_error_enrichment_witness:
  "getattr_obj (PObj ''Inner'' []) ''a'' = Inl (AttributeError ''a'')
   \<and> (\<exists>e'. dataclass_to_bytes_partial ''Inner'' [(''a'', Atomic U8)] (PObj ''Inner'' []) FORMAT_BORSCH
              \<lparr>data = [], pos = 0, TAG_TYPE = None\<rparr> = (Inl e', \<lparr>data = [], pos = 0, TAG_TYPE = None\<rparr>)
            \<and> is_path_error e' \<and> error_path e' = [''a'', ''Inner''])
   \<and> (\<exists>e'. dataclass_to_bytes_partial ''Outer'' [(''x'', Dataclass ''Inner'' [(''a'', Atomic U8)])]
              (PObj ''Outer'' [(''x'', PObj ''Inner'' [])]) FORMAT_BORSCH
              \<lparr>data = [], pos = 0, TAG_TYPE = None\<rparr> = (Inl e', \<lparr>data = [], pos = 0, TAG_TYPE = None\<rparr>)
            \<and> is_path_error e' \<and> error_path e' = [''a'', ''Inner'', ''x'', ''Outer''])
   \<and> (\<exists>e'. dataclass_from_bytes_partial ''Outer'' [(''x'', Dataclass ''Inner'' [(''a'', Atomic U8)])] []
              FORMAT_BORSCH \<lparr>data = [], pos = 0, TAG_TYPE = None\<rparr>
              = (Inl e', \<lparr>data = [], pos = 0, TAG_TYPE = None\<rparr>)
            \<and> is_path_error e' \<and> error_path e' = [''a'', ''Inner'', ''x'', ''Outer''])
   \<and> dataclass_to_bytes_partial ''Inner'' [(''a'', Atomic U8)] (PObj ''Inner'' [(''a'', PInt 5)])
        FORMAT_BORSCH \<lparr>data = [], pos = 0, TAG_TYPE = Some U8\<rparr>
       = (Inr (), \<lparr>data = [5], pos = 1, TAG_TYPE = Some U8\<rparr>)
   \<and> (\<exists>w s1 s2. getattr_obj (PObj ''Inner'' [(''a'', PInt 5)]) ''a'' = Inr w
         \<and> pack_partial (Atomic U8) w FORMAT_BORSCH s1 = (Inr (), s2))
   \<and> dataclass_from_bytes_partial ''Inner'' [(''a'', Atomic U8)] [] FORMAT_BORSCH
        \<lparr>data = [5], pos = 0, TAG_TYPE = Some U8\<rparr>
       = (Inr (PObj ''Inner'' [(''a'', PInt 5)]), \<lparr>data = [5], pos = 1, TAG_TYPE = Some U8\<rparr>)
   \<and> (\<exists>w s1 s2. unpack_partial (Atomic U8) FORMAT_BORSCH s1 = (Inr w, s2))
   \<and> dataclass_to_bytes_partial ''Inner'' [(''a'', Atomic U8)] (PObj ''Inner'' []) FORMAT_BORSCH
        \<lparr>data = [], pos = 0, TAG_TYPE = None\<rparr>
       = (Inl (PodPathError ''Failed to serialize dataclass'' [''a'', ''Inner''] (Atomic U8) (Some PNone)
            (AttributeError ''a'')), \<lparr>data = [], pos = 0, TAG_TYPE = None\<rparr>)
   \<and> (\<exists>p. error_path (PodPathError ''Failed to serialize dataclass'' [''a'', ''Inner''] (Atomic U8)
           (Some PNone) (AttributeError ''a'')) = p @ [''a'', ''Inner''])
   \<and> dataclass_from_bytes_partial ''Inner'' [(''a'', Atomic U8)] [] FORMAT_BORSCH
        \<lparr>data = [], pos = 0, TAG_TYPE = None\<rparr>
       = (Inl (PodPathError ''Failed to deserialize dataclass'' [''a'', ''Inner''] (Atomic U8) None
            AtomicError), \<lparr>data = [], pos = 0, TAG_TYPE = None\<rparr>)
   \<and> (\<exists>p. error_path (PodPathError ''Failed to deserialize dataclass'' [''a'', ''Inner''] (Atomic U8)
           None AtomicError) = p @ [''a'', ''Inner''])"
proof -
  let ?s = "\<lparr>data = [], pos = 0, TAG_TYPE = None\<rparr>"
  let ?inner = "Dataclass ''Inner'' [(''a'', Atomic U8)]"
  let ?e = "PodPathError ''Failed to serialize dataclass'' [''a'', ''Inner''] (Atomic U8) (Some PNone)
        (AttributeError ''a'')"
  let ?d = "PodPathError ''Failed to deserialize dataclass'' [''a'', ''Inner''] (Atomic U8) None
        AtomicError"
  have g: "getattr_obj (PObj ''Inner'' []) ''a'' = Inl (AttributeError ''a'')"
    by simp
  note t1 = path_error_enrichment [of "PObj ''Inner'' []" "(''a'', Atomic U8)" "AttributeError ''a''"
      "''Inner''" "[]" FORMAT_BORSCH ?s PNone ?s "[]" "()" PNone, THEN conjunct1, rule_format]
  have a: "\<exists>e'. dataclass_to_bytes_partial ''Inner'' [(''a'', Atomic U8)] (PObj ''Inner'' []) FORMAT_BORSCH
              ?s = (Inl e', ?s) \<and> is_path_error e' \<and> error_path e' = [''a'', ''Inner'']"
    using t1 by simp
  note t2 = path_error_enrichment [of "PObj ''Outer'' [(''x'', PObj ''Inner'' [])]" "(''x'', ?inner)" ?e
      "''Outer''" "[]" FORMAT_BORSCH ?s "PObj ''Inner'' []" ?s "[]" "()" PNone,
      THEN conjunct2, THEN conjunct1, rule_format]
  have b: "\<exists>e'. dataclass_to_bytes_partial ''Outer'' [(''x'', ?inner)]
              (PObj ''Outer'' [(''x'', PObj ''Inner'' [])]) FORMAT_BORSCH ?s = (Inl e', ?s)
            \<and> is_path_error e' \<and> error_path e' = [''a'', ''Inner'', ''x'', ''Outer'']"
    using t2 pack_inner_missing by simp
  note t3 = path_error_enrichment [of PNone "(''x'', ?inner)" ?d
      "''Outer''" "[]" FORMAT_BORSCH ?s PNone ?s "[]" "()" PNone,
      THEN conjunct2, THEN conjunct2, THEN conjunct1, rule_format]
  have c: "\<exists>e'. dataclass_from_bytes_partial ''Outer'' [(''x'', ?inner)] [] FORMAT_BORSCH ?s = (Inl e', ?s)
            \<and> is_path_error e' \<and> error_path e' = [''a'', ''Inner'', ''x'', ''Outer'']"
    using t3 unpack_inner_empty by simp
  note t6 = path_error_enrichment [of "PObj ''Inner'' [(''a'', PInt 5)]" "(''a'', Atomic U8)" AtomicError
      "''Inner''" "[(''a'', Atomic U8)]" FORMAT_BORSCH "\<lparr>data = [], pos = 0, TAG_TYPE = Some U8\<rparr>" PNone
      "\<lparr>data = [5], pos = 1, TAG_TYPE = Some U8\<rparr>" "[]" "()" PNone,
      THEN conjunct2, THEN conjunct2, THEN conjunct2, THEN conjunct2, THEN conjunct2, THEN conjunct1,
      rule_format, OF pack_inner_5]
  note t7 = path_error_enrichment [of "PObj ''Inner'' [(''a'', PInt 5)]" "(''a'', Atomic U8)" AtomicError
      "''Inner''" "[(''a'', Atomic U8)]" FORMAT_BORSCH "\<lparr>data = [5], pos = 0, TAG_TYPE = Some U8\<rparr>" PNone
      "\<lparr>data = [5], pos = 1, TAG_TYPE = Some U8\<rparr>" "[]" "()" "PObj ''Inner'' [(''a'', PInt 5)]",
      THEN conjunct2, THEN conjunct2, THEN conjunct2, THEN conjunct2, THEN conjunct2, THEN conjunct2,
      rule_format, OF unpack_inner_5]
  have d: "\<exists>w s1 s2. getattr_obj (PObj ''Inner'' [(''a'', PInt 5)]) ''a'' = Inr w
         \<and> pack_partial (Atomic U8) w FORMAT_BORSCH s1 = (Inr (), s2)"
    using t6 by simp
  have e: "\<exists>w s1 s2. unpack_partial (Atomic U8) FORMAT_BORSCH s1 = (Inr w, s2)"
    using t7 by simp
  note t4 = path_error_enrichment [of "PObj ''Inner'' []" "(''a'', Atomic U8)" ?e
      "''Inner''" "[(''a'', Atomic U8)]" FORMAT_BORSCH ?s PNone ?s "[]" "()" PNone,
      THEN conjunct2, THEN conjunct2, THEN conjunct2, THEN conjunct1, rule_format, OF loop_inner_missing,
      THEN conjunct2]
  note t5 = path_error_enrichment [of PNone "(''a'', Atomic U8)" ?d
      "''Inner''" "[(''a'', Atomic U8)]" FORMAT_BORSCH ?s PNone ?s "[]" "()" PNone,
      THEN conjunct2, THEN conjunct2, THEN conjunct2, THEN conjunct2, THEN conjunct1, rule_format,
      OF loop_inner_empty, THEN conjunct2]
  have t4': "\<exists>p. error_path ?e = p @ [''a'', ''Inner'']"
    using t4 by simp
  have t5': "\<exists>p. error_path ?d = p @ [''a'', ''Inner'']"
    using t5 by simp
  show ?thesis
    by (intro conjI g a b c d e pack_inner_5 unpack_inner_5 loop_inner_missing loop_inner_empty t4' t5')
qed

subsection \<open>Auto-detection and round trip of records of atomic types\<close>

lemma buffer_write_appended:
  "pos s = length (data s) \<Longrightarrow> buffer_write bs s = appended bs s"
  by (simp add: buffer_write_def appended_def)

lemma appended_appended:
  "appended bs2 (appended bs1 s) = appended (bs1 @ bs2) s"
  by (simp add: appended_def)

lemma appended_Nil: "appended [] s = s\<lparr>pos := length (data s)\<rparr>"
  by (simp add: appended_def)

lemma appended_at_end:
  "pos (appended bs s) = length (data (appended bs s))"
  by (simp add: appended_def)

lemma appended_TAG_TYPE_update:
  "appended bs (s\<lparr>TAG_TYPE := x\<rparr>)\<lparr>TAG_TYPE := y\<rparr> = appended bs s\<lparr>TAG_TYPE := y\<rparr>"
  by (simp add: appended_def)

lemma length_le_bytes: "length (le_bytes w n) = w"
  by (induction w arbitrary: n) simp_all

lemma le_value_le_bytes: "n < 256 ^ w \<Longrightarrow> le_value (le_bytes w n) = n"
proof (induction w arbitrary: n)
  case 0
  then show ?case by simp
next
  case (Suc w)
  from Suc.prems have "n div 256 < 256 ^ w"
    by (simp add: less_mult_imp_div_less mult.commute)
  from Suc.IH [OF this] show ?case
    by (simp add: unat_of_nat)
qed

lemma pow_8: "(2::int) ^ (8 * k) = 256 ^ k"
  by (simp add: power_mult)

lemma conforms_fields_keys:
  "conforms_fields flds attrs \<Longrightarrow> map fst attrs = map fst flds"
  by (induction flds arbitrary: attrs) (auto split: list.splits)

lemma atomic_pack_partial_conforms:
  assumes "conforms (Atomic a) v" "pos s = length (data s)"
  shows "atomic_pack_partial a v s = (Inr (), appended (wire (Atomic a) v) s)"
  using assms
  by (cases v) (simp_all add: atomic_pack_partial_def buffer_write_appended)

lemma dataclass_to_bytes_partial_wire:
  assumes IH: "\<And>fld v s. fld \<in> set fs \<Longrightarrow> conforms (snd fld) v \<Longrightarrow> pos s = length (data s)
      \<Longrightarrow> pack_partial (snd fld) v f s = (Inr (), appended (wire (snd fld) v) s)"
    and "conforms_fields fs attrs"
    and "\<And>kv. kv \<in> set attrs \<Longrightarrow> getattr_obj obj (fst kv) = Inr (snd kv)"
    and "pos s = length (data s)"
  shows "dataclass_to_bytes_partial cls fs obj f s = (Inr (), appended (wire_fields fs attrs) s)"
  using assms
proof (induction fs arbitrary: attrs s)
  case Nil
  then show ?case by (simp add: appended_def)
next
  case (Cons fld fs)
  from Cons.prems(2) obtain kv rest where attrs: "attrs = kv # rest"
    and k: "fst kv = fst fld" and c: "conforms (snd fld) (snd kv)" and r: "conforms_fields fs rest"
    by (cases attrs) auto
  from Cons.prems(3) [of kv] attrs k have g: "getattr_obj obj (fst fld) = Inr (snd kv)"
    by simp
  have p: "pack_partial (snd fld) (snd kv) f s = (Inr (), appended (wire (snd fld) (snd kv)) s)"
    by (rule Cons.prems(1) [OF _ c Cons.prems(4)]) simp
  have "dataclass_to_bytes_partial cls fs obj f (appended (wire (snd fld) (snd kv)) s)
      = (Inr (), appended (wire_fields fs rest) (appended (wire (snd fld) (snd kv)) s))"
  proof (rule Cons.IH [OF _ r])
    show "pack_partial (snd fld') v f s' = (Inr (), appended (wire (snd fld') v) s')"
      if "fld' \<in> set fs" "conforms (snd fld') v" "pos s' = length (data s')" for fld' v s'
      using that by (intro Cons.prems(1)) simp_all
    show "getattr_obj obj (fst kv') = Inr (snd kv')" if "kv' \<in> set rest" for kv'
      using that attrs by (intro Cons.prems(3)) simp
    show "pos (appended (wire (snd fld) (snd kv)) s) = length (data (appended (wire (snd fld) (snd kv)) s))"
      by (rule appended_at_end)
  qed
  with g p attrs show ?case
    by (simp add: appended_appended)
qed

lemma getattr_obj_conforms:
  assumes "distinct (map fst attrs)" "kv \<in> set attrs"
  shows "getattr_obj (PObj cls attrs) (fst kv) = Inr (snd kv)"
proof -
  from assms have "map_of attrs (fst kv) = Some (snd kv)"
    by (cases kv) simp
  then show ?thesis by simp
qed

lemma pack_partial_wire:
  "conforms t v \<Longrightarrow> pos s = length (data s) \<Longrightarrow> f = FORMAT_BORSCH \<or> f = FORMAT_ZERO_COPY
   \<Longrightarrow> pack_partial t v f s = (Inr (), appended (wire t v) s)"
proof (induction t arbitrary: v s)
  case (Atomic a)
  have "atomic_pack_partial a v (s\<lparr>TAG_TYPE := x\<rparr>)
      = (Inr (), appended (wire (Atomic a) v) (s\<lparr>TAG_TYPE := x\<rparr>))" for x
    by (rule atomic_pack_partial_conforms [OF Atomic(1)]) (simp add: Atomic(2))
  with Atomic(3) show ?case
    by (auto simp: pack_partial.simps appended_def)
next
  case (Dataclass cls flds)
  from Dataclass.prems(1) obtain attrs where v: "v = PObj cls attrs"
    and d: "distinct (map fst flds)" and c: "conforms_fields flds attrs"
    by (cases v) auto
  from conforms_fields_keys [OF c] d have da: "distinct (map fst attrs)" by simp
  have loop: "dataclass_to_bytes_partial cls flds v f (s\<lparr>TAG_TYPE := x\<rparr>)
      = (Inr (), appended (wire_fields flds attrs) (s\<lparr>TAG_TYPE := x\<rparr>))" for x
  proof (rule dataclass_to_bytes_partial_wire [OF _ c])
    show "pack_partial (snd fld) w f s' = (Inr (), appended (wire (snd fld) w) s')"
      if "fld \<in> set flds" "conforms (snd fld) w" "pos s' = length (data s')" for fld w s'
    proof (rule Dataclass.IH [OF that(1) _ that(2) that(3) Dataclass.prems(3)])
      show "snd fld \<in> Basic_BNFs.snds fld"
        by (cases fld) simp
    qed
    show "getattr_obj v (fst kv) = Inr (snd kv)" if "kv \<in> set attrs" for kv
      unfolding v by (rule getattr_obj_conforms [OF da that])
    show "pos (s\<lparr>TAG_TYPE := x\<rparr>) = length (data (s\<lparr>TAG_TYPE := x\<rparr>))"
      using Dataclass.prems(2) by simp
  qed
  with Dataclass.prems(3) v show ?case
    by (auto simp: pack_partial.simps appended_def)
qed simp_all

lemma update_fresh:
  "k \<notin> fst ` set al \<Longrightarrow> AList.update k v al = al @ [(k, v)]"
  by (induction al) auto

lemma atomic_unpack_partial_wire:
  assumes "conforms (Atomic a) v" "data s = pre @ wire (Atomic a) v @ post" "pos s = length pre"
  shows "atomic_unpack_partial a s = (Inr v, s\<lparr>pos := length pre + length (wire (Atomic a) v)\<rparr>)"
proof -
  from assms(1) obtain n where v: "v = PInt n" and n0: "0 \<le> n" and n1: "n < 2 ^ (8 * atomic_size a)"
    by (cases v) auto
  let ?bs = "le_bytes (atomic_size a) (nat n)"
  from n0 n1 have "int (nat n) < 256 ^ atomic_size a"
    by (simp add: pow_8)
  then have "nat n < 256 ^ atomic_size a"
    by (metis of_nat_less_iff of_nat_numeral of_nat_power)
  then have lv: "le_value ?bs = nat n"
    by (rule le_value_le_bytes)
  have rd: "buffer_read (int (atomic_size a)) s = (?bs, s\<lparr>pos := length pre + atomic_size a\<rparr>)"
    using assms(2,3) v by (simp add: buffer_read_def length_le_bytes)
  show ?thesis
    using n0 by (simp add: atomic_unpack_partial_def rd lv v length_le_bytes)
qed

lemma dataclass_from_bytes_partial_wire:
  assumes IH: "\<And>fld v s pre post. fld \<in> set fs \<Longrightarrow> conforms (snd fld) v
      \<Longrightarrow> data s = pre @ wire (snd fld) v @ post \<Longrightarrow> pos s = length pre
      \<Longrightarrow> unpack_partial (snd fld) f s = (Inr v, s\<lparr>pos := length pre + length (wire (snd fld) v)\<rparr>)"
    and "conforms_fields fs attrs"
    and "distinct (map fst attrs)"
    and "fst ` set attrs \<inter> fst ` set vals = {}"
    and "data s = pre @ wire_fields fs attrs @ post"
    and "pos s = length pre"
  shows "dataclass_from_bytes_partial cls fs vals f s
      = (Inr (PObj cls (vals @ attrs)), s\<lparr>pos := length pre + length (wire_fields fs attrs)\<rparr>)"
  using assms
proof (induction fs arbitrary: attrs vals s pre)
  case Nil
  then show ?case by simp
next
  case (Cons fld fs)
  from Cons.prems(2) obtain kv rest where attrs: "attrs = kv # rest"
    and k: "fst kv = fst fld" and c: "conforms (snd fld) (snd kv)" and r: "conforms_fields fs rest"
    by (cases attrs) auto
  let ?w = "wire (snd fld) (snd kv)"
  let ?s1 = "s\<lparr>pos := length pre + length ?w\<rparr>"
  have u: "unpack_partial (snd fld) f s = (Inr (snd kv), ?s1)"
  proof (rule Cons.prems(1) [OF _ c _ Cons.prems(6)])
    show "fld \<in> set (fld # fs)" by simp
    show "data s = pre @ ?w @ wire_fields fs rest @ post"
      using Cons.prems(5) attrs by simp
  qed
  from Cons.prems(4) attrs k have fresh: "fst fld \<notin> fst ` set vals"
    by auto
  have upd: "AList.update (fst fld) (snd kv) vals = vals @ [kv]"
    using update_fresh [OF fresh, of "snd kv"] k by (cases kv) simp
  have "dataclass_from_bytes_partial cls fs (vals @ [kv]) f ?s1
      = (Inr (PObj cls ((vals @ [kv]) @ rest)),
         ?s1\<lparr>pos := length (pre @ ?w) + length (wire_fields fs rest)\<rparr>)"
  proof (rule Cons.IH [OF _ r])
    show "unpack_partial (snd fld') f s' = (Inr v, s'\<lparr>pos := length pre' + length (wire (snd fld') v)\<rparr>)"
      if "fld' \<in> set fs" "conforms (snd fld') v" "data s' = pre' @ wire (snd fld') v @ post'"
        "pos s' = length pre'" for fld' v s' pre' post'
      using that by (intro Cons.prems(1)) simp_all
    show "distinct (map fst rest)"
      using Cons.prems(3) attrs by simp
    show "fst ` set rest \<inter> fst ` set (vals @ [kv]) = {}"
      using Cons.prems(3,4) attrs by auto
    show "data ?s1 = (pre @ ?w) @ wire_fields fs rest @ post"
      using Cons.prems(5) attrs by simp
    show "pos ?s1 = length (pre @ ?w)"
      by simp
  qed
  with u upd attrs show ?case
    by (simp add: add.assoc)
qed

lemma unpack_partial_wire:
  "conforms t v \<Longrightarrow> data s = pre @ wire t v @ post \<Longrightarrow> pos s = length pre
   \<Longrightarrow> f = FORMAT_BORSCH \<or> f = FORMAT_ZERO_COPY
   \<Longrightarrow> unpack_partial t f s = (Inr v, s\<lparr>pos := length pre + length (wire t v)\<rparr>)"
proof (induction t arbitrary: v s pre post)
  case (Atomic a)
  have "atomic_unpack_partial a (s\<lparr>TAG_TYPE := x\<rparr>)
      = (Inr v, s\<lparr>TAG_TYPE := x\<rparr>\<lparr>pos := length pre + length (wire (Atomic a) v)\<rparr>)" for x
    by (rule atomic_unpack_partial_wire [OF Atomic(1), where post = post])
       (simp_all add: Atomic(2,3))
  with Atomic(4) show ?case
    by (auto simp: unpack_partial.simps auto_format_def)
next
  case (Dataclass cls flds)
  from Dataclass.prems(1) obtain attrs where v: "v = PObj cls attrs"
    and d: "distinct (map fst flds)" and c: "conforms_fields flds attrs"
    by (cases v) auto
  from conforms_fields_keys [OF c] d have da: "distinct (map fst attrs)" by simp
  have loop: "dataclass_from_bytes_partial cls flds [] f (s\<lparr>TAG_TYPE := x\<rparr>)
      = (Inr (PObj cls ([] @ attrs)),
         s\<lparr>TAG_TYPE := x\<rparr>\<lparr>pos := length pre + length (wire_fields flds attrs)\<rparr>)" for x
  proof (rule dataclass_from_bytes_partial_wire [OF _ c da, where post = post])
    show "unpack_partial (snd fld) f s' = (Inr w, s'\<lparr>pos := length pre' + length (wire (snd fld) w)\<rparr>)"
      if "fld \<in> set flds" "conforms (snd fld) w" "data s' = pre' @ wire (snd fld) w @ post'"
        "pos s' = length pre'" for fld w s' pre' post'
    proof (rule Dataclass.IH [OF that(1) _ that(2) that(3) that(4) Dataclass.prems(4)])
      show "snd fld \<in> Basic_BNFs.snds fld"
        by (cases fld) simp
    qed
    show "fst ` set attrs \<inter> fst ` set [] = {}" by simp
    show "data (s\<lparr>TAG_TYPE := x\<rparr>) = pre @ wire_fields flds attrs @ post"
      using Dataclass.prems(2) v by simp
    show "pos (s\<lparr>TAG_TYPE := x\<rparr>) = length pre"
      using Dataclass.prems(3) by simp
  qed
  with Dataclass.prems(4) v show ?case
    by (auto simp: unpack_partial.simps auto_format_def)
qed simp_all

lemma sum_field_sizes_wire:
  assumes IH: "\<And>fld v. fld \<in> set fs \<Longrightarrow> conforms (snd fld) v
      \<Longrightarrow> calc_max_size tg (snd fld) = Inr (length (wire (snd fld) v))"
    and "conforms_fields fs attrs"
  shows "sum_field_sizes acc (map (\<lambda>f. calc_max_size tg (snd f)) fs)
      = Inr (acc + length (wire_fields fs attrs))"
  using assms
proof (induction fs arbitrary: attrs acc)
  case Nil
  then show ?case by simp
next
  case (Cons fld fs)
  from Cons.prems(2) obtain kv rest where attrs: "attrs = kv # rest"
    and c: "conforms (snd fld) (snd kv)" and r: "conforms_fields fs rest"
    by (cases attrs) auto
  have m: "calc_max_size tg (snd fld) = Inr (length (wire (snd fld) (snd kv)))"
    by (rule Cons.prems(1) [OF _ c]) simp
  have "sum_field_sizes (acc + length (wire (snd fld) (snd kv))) (map (\<lambda>f. calc_max_size tg (snd f)) fs)
      = Inr (acc + length (wire (snd fld) (snd kv)) + length (wire_fields fs rest))"
    by (rule Cons.IH [OF _ r]) (simp add: Cons.prems(1))
  with m attrs show ?case by simp
qed

lemma calc_max_size_wire:
  "conforms t v \<Longrightarrow> calc_max_size tg t = Inr (length (wire t v))"
proof (induction t arbitrary: v)
  case (Atomic a)
  then show ?case by (cases v) (simp_all add: length_le_bytes)
next
  case (Dataclass cls flds)
  from Dataclass.prems obtain attrs where v: "v = PObj cls attrs"
    and c: "conforms_fields flds attrs"
    by (cases v) auto
  have "sum_field_sizes 0 (map (\<lambda>f. calc_max_size tg (snd f)) flds)
      = Inr (0 + length (wire_fields flds attrs))"
  proof (rule sum_field_sizes_wire [OF _ c])
    show "calc_max_size tg (snd fld) = Inr (length (wire (snd fld) w))"
      if "fld \<in> set flds" "conforms (snd fld) w" for fld w
    proof (rule Dataclass.IH [OF that(1) _ that(2)])
      show "snd fld \<in> Basic_BNFs.snds fld" by (cases fld) simp
    qed
  qed
  with v show ?case by simp
qed simp_all

lemma all_fields_static_conforms:
  assumes IH: "\<And>fld v. fld \<in> set fs \<Longrightarrow> conforms (snd fld) v \<Longrightarrow> is_static (snd fld) = Inr True"
    and "conforms_fields fs attrs"
  shows "all_fields_static (map (\<lambda>f. is_static (snd f)) fs) = Inr True"
  using assms
proof (induction fs arbitrary: attrs)
  case Nil
  then show ?case by simp
next
  case (Cons fld fs)
  from Cons.prems(2) obtain kv rest where attrs: "attrs = kv # rest"
    and c: "conforms (snd fld) (snd kv)" and r: "conforms_fields fs rest"
    by (cases attrs) auto
  have m: "is_static (snd fld) = Inr True"
    by (rule Cons.prems(1) [OF _ c]) simp
  have "all_fields_static (map (\<lambda>f. is_static (snd f)) fs) = Inr True"
  proof (rule Cons.IH [OF _ r])
    show "is_static (snd fld') = Inr True" if "fld' \<in> set fs" "conforms (snd fld') w" for fld' w
      using that by (intro Cons.prems(1) [of fld' w]) simp_all
  qed
  with m show ?case by simp
qed

lemma is_static_conforms:
  "conforms t v \<Longrightarrow> is_static t = Inr True"
proof (induction t arbitrary: v)
  case (Atomic a)
  then show ?case by simp
next
  case (Dataclass cls flds)
  from Dataclass.prems obtain attrs where v: "v = PObj cls attrs"
    and c: "conforms_fields flds attrs"
    by (cases v) auto
  have "all_fields_static (map (\<lambda>f. is_static (snd f)) flds) = Inr True"
  proof (rule all_fields_static_conforms [OF _ c])
    show "is_static (snd fld) = Inr True" if "fld \<in> set flds" "conforms (snd fld) w" for fld w
    proof (rule Dataclass.IH [OF that(1) _ that(2)])
      show "snd fld \<in> Basic_BNFs.snds fld" by (cases fld) simp
    qed
  qed
  then show ?case by (simp add: IS_STATIC_def)
qed simp_all

lemma auto_format_AUTO:
  "calc_max_size (Some U64) t = Inr n \<Longrightarrow>
   auto_format t FORMAT_AUTO s
     = (Inr (if n = length (data s) then FORMAT_ZERO_COPY else FORMAT_BORSCH), s)"
  by (simp add: auto_format_def)

lemma unpack_partial_AUTO:
  assumes "calc_max_size (Some U64) t = Inr (length (data s))"
  shows "unpack_partial t FORMAT_AUTO s = unpack_partial t FORMAT_ZERO_COPY s"
proof -
  have a: "auto_format t FORMAT_AUTO s = (Inr FORMAT_ZERO_COPY, s)"
    using auto_format_AUTO [OF assms, of s] by simp
  have z: "auto_format t FORMAT_ZERO_COPY s = (Inr FORMAT_ZERO_COPY, s)"
    by (simp add: auto_format_def)
  show ?thesis
    unfolding unpack_partial.simps [of t FORMAT_AUTO] unpack_partial.simps [of t FORMAT_ZERO_COPY] a z
    by (rule refl)
qed

lemma pack_conforms:
  assumes "conforms t v" "f = FORMAT_BORSCH \<or> f = FORMAT_ZERO_COPY"
  shows "pack t v f tag = (Inr (wire t v), tag)"
proof -
  have "pack_partial t v f \<lparr>data = [], pos = 0, TAG_TYPE = tag\<rparr>
      = (Inr (), appended (wire t v) \<lparr>data = [], pos = 0, TAG_TYPE = tag\<rparr>)"
    by (rule pack_partial_wire [OF assms(1) _ assms(2)]) simp
  then show ?thesis by (simp add: pack_def appended_def)
qed

lemma unpack_conforms:
  assumes "conforms t v"
  shows "unpack t (wire t v) checked FORMAT_AUTO tag = (Inr v, tag)"
proof -
  let ?s = "\<lparr>data = wire t v, pos = 0, TAG_TYPE = tag\<rparr>"
  have "calc_max_size (Some U64) t = Inr (length (data ?s))"
    using calc_max_size_wire [OF assms] by simp
  then have "unpack_partial t FORMAT_AUTO ?s = unpack_partial t FORMAT_ZERO_COPY ?s"
    by (rule unpack_partial_AUTO)
  also have "\<dots> = (Inr v, ?s\<lparr>pos := length ([] :: byte list) + length (wire t v)\<rparr>)"
    by (rule unpack_partial_wire [OF assms, where post = "[]"]) simp_all
  finally show ?thesis by (simp add: unpack_def)
qed

lemma wire_R:
  "wire (Dataclass ''R'' [(''a'', Atomic U8), (''b'', Atomic U32)])
      (PObj ''R'' [(''a'', PInt 5), (''b'', PInt 3)]) = [5, 3, 0, 0, 0]"
  by (simp add: le_bytes_numeral)

lemma conforms_R:
  "conforms (Dataclass ''R'' [(''a'', Atomic U8), (''b'', Atomic U32)])
      (PObj ''R'' [(''a'', PInt 5), (''b'', PInt 3)])"
  by simp

lemma calc_max_size_R:
  "calc_max_size (Some U64) (Dataclass ''R'' [(''a'', Atomic U8), (''b'', Atomic U32)]) = Inr 5"
  by simp

text \<open>
  C5 (auto-detection), as the claim states it: the decoder selects the zero-copy format
  if the maximum size equals the remaining buffer length. With the cursor at 1 in a
  buffer of 9 bytes, 8 bytes remain and \<^verbatim>\<open>AutoTagType\<close> has the maximum size 8 under the
  8-byte tag width, yet the code selects the canonical format and reads a one-byte tag:
  it compares with \<^verbatim>\<open>buffer.tell()\<close> after \<^verbatim>\<open>buffer.seek(0, 2)\<close>, the offset of the end.
\<close>

theorem auto_format_compares_end_offset:
  "calc_max_size (Some U64) AutoTagType = Inr (length [9, 5, 0, 0, 0, 0, 0, 0, 0 :: byte] - 1)
   \<and> auto_format AutoTagType FORMAT_AUTO \<lparr>data = [9, 5, 0, 0, 0, 0, 0, 0, 0], pos = 1, TAG_TYPE = None\<rparr>
       = (Inr FORMAT_BORSCH, \<lparr>data = [9, 5, 0, 0, 0, 0, 0, 0, 0], pos = 1, TAG_TYPE = None\<rparr>)
   \<and> unpack_partial AutoTagType FORMAT_AUTO \<lparr>data = [9, 5, 0, 0, 0, 0, 0, 0, 0], pos = 1, TAG_TYPE = None\<rparr>
       = (Inr (PInt 5), \<lparr>data = [9, 5, 0, 0, 0, 0, 0, 0, 0], pos = 2, TAG_TYPE = None\<rparr>)"
  by (simp add: auto_format_def unpack_partial.simps atomic_unpack_partial_def buffer_read_def)

text \<open>
  C5 (auto-detection), amended. With the format \<^verbatim>\<open>FORMAT_AUTO\<close> and a type whose maximum
  size under the 8-byte tag width is \<open>n\<close>, the detection selects the zero-copy format if
  \<open>n\<close> is the total length of the buffer and the canonical format otherwise, and leaves
  the cursor and the tag slot as they were. For a dataclass whose fields are atomic
  types or dataclasses of this kind and a value \<open>v\<close> within its bounds, the type is
  static, packing in the canonical or the zero-copy format succeeds, and unpacking the
  bytes with \<^verbatim>\<open>FORMAT_AUTO\<close>, checked or not, returns \<open>v\<close>.
\<close>

theorem auto_format_round_trip:
  "(calc_max_size (Some U64) t = Inr n \<longrightarrow>
      auto_format t FORMAT_AUTO s
        = (Inr (if n = length (data s) then FORMAT_ZERO_COPY else FORMAT_BORSCH), s))
   \<and> (conforms (Dataclass cls flds) v \<and> (f = FORMAT_BORSCH \<or> f = FORMAT_ZERO_COPY) \<longrightarrow>
      is_static (Dataclass cls flds) = Inr True
      \<and> pack (Dataclass cls flds) v f tag = (Inr (wire (Dataclass cls flds) v), tag)
      \<and> unpack (Dataclass cls flds) (wire (Dataclass cls flds) v) checked FORMAT_AUTO tag
          = (Inr v, tag))"
proof (intro conjI impI)
  assume "calc_max_size (Some U64) t = Inr n"
  then show "auto_format t FORMAT_AUTO s
      = (Inr (if n = length (data s) then FORMAT_ZERO_COPY else FORMAT_BORSCH), s)"
    by (rule auto_format_AUTO)
next
  assume a: "conforms (Dataclass cls flds) v \<and> (f = FORMAT_BORSCH \<or> f = FORMAT_ZERO_COPY)"
  from a show "is_static (Dataclass cls flds) = Inr True"
    by (intro is_static_conforms [of _ v]) simp
  from a show "pack (Dataclass cls flds) v f tag = (Inr (wire (Dataclass cls flds) v), tag)"
    by (intro pack_conforms) simp_all
  from a show "unpack (Dataclass cls flds) (wire (Dataclass cls flds) v) checked FORMAT_AUTO tag
      = (Inr v, tag)"
    by (intro unpack_conforms) simp
qed

theorem auto_format_round_trip_witness:
  "calc_max_size (Some U64) (Dataclass ''R'' [(''a'', Atomic U8), (''b'', Atomic U32)]) = Inr 5
   \<and> auto_format (Dataclass ''R'' [(''a'', Atomic U8), (''b'', Atomic U32)]) FORMAT_AUTO
        \<lparr>data = [5, 3, 0, 0, 0], pos = 0, TAG_TYPE = None\<rparr>
       = (Inr FORMAT_ZERO_COPY, \<lparr>data = [5, 3, 0, 0, 0], pos = 0, TAG_TYPE = None\<rparr>)
   \<and> auto_format (Dataclass ''R'' [(''a'', Atomic U8), (''b'', Atomic U32)]) FORMAT_AUTO
        \<lparr>data = [5, 3, 0, 0, 0, 7], pos = 0, TAG_TYPE = None\<rparr>
       = (Inr FORMAT_BORSCH, \<lparr>data = [5, 3, 0, 0, 0, 7], pos = 0, TAG_TYPE = None\<rparr>)
   \<and> conforms (Dataclass ''R'' [(''a'', Atomic U8), (''b'', Atomic U32)])
        (PObj ''R'' [(''a'', PInt 5), (''b'', PInt 3)])
   \<and> is_static (Dataclass ''R'' [(''a'', Atomic U8), (''b'', Atomic U32)]) = Inr True
   \<and> pack (Dataclass ''R'' [(''a'', Atomic U8), (''b'', Atomic U32)])
        (PObj ''R'' [(''a'', PInt 5), (''b'', PInt 3)]) FORMAT_BORSCH None = (Inr [5, 3, 0, 0, 0], None)
   \<and> pack (Dataclass ''R'' [(''a'', Atomic U8), (''b'', Atomic U32)])
        (PObj ''R'' [(''a'', PInt 5), (''b'', PInt 3)]) FORMAT_ZERO_COPY None = (Inr [5, 3, 0, 0, 0], None)
   \<and> unpack (Dataclass ''R'' [(''a'', Atomic U8), (''b'', Atomic U32)]) [5, 3, 0, 0, 0] True FORMAT_AUTO None
       = (Inr (PObj ''R'' [(''a'', PInt 5), (''b'', PInt 3)]), None)"
proof -
  let ?R = "Dataclass ''R'' [(''a'', Atomic U8), (''b'', Atomic U32)]"
  let ?v = "PObj ''R'' [(''a'', PInt 5), (''b'', PInt 3)]"
  let ?s = "\<lparr>data = [5, 3, 0, 0, 0], pos = 0, TAG_TYPE = None\<rparr>"
  let ?s' = "\<lparr>data = [5, 3, 0, 0, 0, 7], pos = 0, TAG_TYPE = None\<rparr>"
  note d1 = auto_format_round_trip [of ?R 5 ?s "''R''" "[]" PNone FORMAT_BORSCH None True,
      THEN conjunct1, rule_format, OF calc_max_size_R]
  note d2 = auto_format_round_trip [of ?R 5 ?s' "''R''" "[]" PNone FORMAT_BORSCH None True,
      THEN conjunct1, rule_format, OF calc_max_size_R]
  have a: "auto_format ?R FORMAT_AUTO ?s = (Inr FORMAT_ZERO_COPY, ?s)"
    using d1 by simp
  have b: "auto_format ?R FORMAT_AUTO ?s' = (Inr FORMAT_BORSCH, ?s')"
    using d2 by simp
  have hb: "conforms ?R ?v \<and> (FORMAT_BORSCH = FORMAT_BORSCH \<or> FORMAT_BORSCH = FORMAT_ZERO_COPY)"
    using conforms_R by simp
  have hz: "conforms ?R ?v \<and> (FORMAT_ZERO_COPY = FORMAT_BORSCH \<or> FORMAT_ZERO_COPY = FORMAT_ZERO_COPY)"
    using conforms_R by simp
  note rb = auto_format_round_trip [of ?R 5 ?s "''R''" "[(''a'', Atomic U8), (''b'', Atomic U32)]" ?v
      FORMAT_BORSCH None True, THEN conjunct2, rule_format, OF hb]
  note rz = auto_format_round_trip [of ?R 5 ?s "''R''" "[(''a'', Atomic U8), (''b'', Atomic U32)]" ?v
      FORMAT_ZERO_COPY None True, THEN conjunct2, rule_format, OF hz]
  have st: "is_static ?R = Inr True"
    by (rule rb [THEN conjunct1])
  have pb: "pack ?R ?v FORMAT_BORSCH None = (Inr [5, 3, 0, 0, 0], None)"
    using rb [THEN conjunct2, THEN conjunct1] by (simp only: wire_R)
  have pz: "pack ?R ?v FORMAT_ZERO_COPY None = (Inr [5, 3, 0, 0, 0], None)"
    using rz [THEN conjunct2, THEN conjunct1] by (simp only: wire_R)
  have un: "unpack ?R [5, 3, 0, 0, 0] True FORMAT_AUTO None = (Inr ?v, None)"
    using rb [THEN conjunct2, THEN conjunct2] by (simp only: wire_R)
  show ?thesis
    by (intro conjI calc_max_size_R a b conforms_R st pb pz un)
qed

end
